theory Spec2Isabelle
  imports Main
begin

section \<open>HubService of ngx-signalr-hubservice: data model\<close>

text \<open>
  The service is a TypeScript class driven by callbacks: calls of its public methods,
  settlements of the promises the SignalR connection hands out, timers, and the
  connection's own lifecycle hooks. The model is a record of the object's fields together
  with the part of the outside world the fields refer to (the Subjects created by the
  service, the calls made on the connection, the promises and timers still pending, and
  what the emitters and the returned observables have delivered), and one function per
  method or callback that takes the record and returns it updated.

  What a method of the service throws is an \<open>error\<close>; a JavaScript value that travels
  through the service (\<open>any\<close>) is a \<open>jsval\<close>, among them symbols and the Error objects
  the service itself throws.
\<close>

datatype error =
    TypeError
  | InvalidHubName string
  | MissingHubDecorator
  | NoSubscriptions string
  | RangeError

datatype jsval =
    JNull
  | JBool bool
  | JNum int
  | JStr string
  | JArr "jsval list"
  | JSymbol string
  | JError error

text \<open>\<open>$.signalR.connectionState\<close>.\<close>

datatype connectionState = StConnecting | StConnected | StReconnecting | StDisconnected

text \<open>\<open>hubGroups?: string | string[]\<close>; \<open>None\<close> is null or undefined.\<close>

datatype groups = OneGroup string | Groups "string list"

record subscription =
  eventName :: string
  functionName :: string

record HubProperties =
  hubName :: string
  hubGroups :: "groups option"
  subscriptions :: "subscription list"

text \<open>
  \<open>HubServiceOptions\<close>. \<open>connect\<close> spreads the caller's object over the defaults of
  \<open>url\<close> and \<open>attemptReconnects\<close>, so for these two keys it matters whether the key is
  absent or present, and a present key may hold \<open>undefined\<close> (\<open>Present None\<close>). For the
  other two an absent key reads as \<open>undefined\<close> (\<open>None\<close>).
\<close>

datatype 'a key = Absent | Present "'a option"

fun reading :: "'a key \<Rightarrow> 'a option" where
  "reading Absent = None"
| "reading (Present v) = v"

record HubServiceOptions =
  url :: "string key"
  attemptReconnects :: "bool key"
  qs :: "string option"
  optionGroups :: "groups option"

text \<open>
  A function value of an instance, applied to the arguments with the instance as
  \<open>this\<close>. The first component of the result says whether the function first calls
  \<open>this.hubWrapper.unregister()\<close>, that is \<open>unregister\<close> for its own instance; the second
  is \<open>None\<close> when it then returns and \<open>Some e\<close> when it then throws \<open>e\<close>. A handler makes no
  other call on the service.
  An instance is an object with an identity \<open>oid\<close> (two instances are the same object iff
  their \<open>oid\<close> agree), the result of \<open>Reflect.getMetadata("Hub", instance)\<close>, and its
  members by name (own or inherited).
\<close>

type_synonym jsfun = "jsval list \<Rightarrow> bool \<times> jsval option"

record hubInstance =
  oid :: nat
  metadata :: "HubProperties option"
  members :: "string \<rightharpoonup> jsfun"

record eventType =
  thisObj :: hubInstance
  callback :: jsfun

type_synonym eventsType = "string \<rightharpoonup> eventType list"

text \<open>The jQuery hub proxy is identified by the hub name it was created for.\<close>

record hubProxyWrapper =
  hubProxy :: string
  events :: eventsType

record HubWrapper =
  invokeHub :: string
  unregisterOf :: nat
  hub :: "string option"

text \<open>The jQuery connection object: what the service reads of it, and whether
  \<open>initConnection\<close> has installed the lifecycle callbacks on it.\<close>

record hubConnection =
  connUrl :: "string option"
  connQs :: "string option"
  state :: connectionState
  hooked :: bool

text \<open>Everything the service asks of the connection, in call order.\<close>

datatype transportCall =
    CreateHubProxy string
  | On string string
  | Start
  | Stop
  | HubInvoke string string "jsval list"

text \<open>What the four EventEmitters emit.\<close>

datatype emission =
    connectedEmit bool
  | disconnectedEmit bool
  | reconnectingEmit
  | reconnectedEmit bool

text \<open>
  A subscriber of an observable returned by \<open>connect\<close>/\<open>_connect\<close>: a caller outside
  the service (by number), or the async arrow function of \<open>tryReconnect\<close>.
\<close>

datatype observer = Caller nat | ReconnectLoop

text \<open>
  An observer of a Subject held in \<open>reconnectingObservable\<close>: a subscriber of
  \<open>asObservable()\<close> handed out by \<open>_connect\<close>, or the \<open>flatMap\<close> of \<open>invoke\<close>, which
  closes over the hub proxy, the method, the arguments, and feeds the caller.
  \<open>InvokeNoProxy\<close> is that \<open>flatMap\<close> when \<open>hubContainer\<close> is a member of
  \<open>Object.prototype\<close>, which has no \<open>hubProxy\<close>.
\<close>

datatype waiter =
    AsObservable observer
  | InvokeFlatMap string string "jsval list" nat
  | InvokeNoProxy nat

text \<open>
  What happens when the promise of \<open>hubProxy.invoke\<close> settles: the gated branch of
  \<open>invoke\<close> passes the settlement on (\<open>Direct\<close>); the other branch has a
  \<open>catchError\<close> that closes over hub name, method and arguments (\<open>CatchRetry\<close>).
\<close>

datatype continuation =
    Direct nat
  | CatchRetry nat string string "jsval list"

text \<open>What a caller's subscription receives as \<open>next\<close> or as \<open>error\<close>; \<open>Thrown\<close> is an
  exception raised inside an operator and passed on as the error of the observable.\<close>

datatype outcome = Next jsval | Failed jsval | Thrown error

datatype logline =
    Warn nat string
  | Error string string jsval

record HubService =
  connection :: "hubConnection option"
  errorConnecting :: bool
  tryingReconnect :: bool
  reconnectingObservable :: "nat option"
  deferredRegistrations :: "hubInstance list"
  options :: "HubServiceOptions option"
  hubProxies :: "(string \<rightharpoonup> hubProxyWrapper) option"
  allHubProperties :: "HubProperties list"
  subjects :: "nat \<Rightarrow> waiter list"
  subjectCount :: nat
  emitted :: "emission list"
  transportLog :: "transportCall list"
  startPromises :: "nat \<rightharpoonup> observer"
  stopPromises :: "nat \<rightharpoonup> nat"
  invokePromises :: "nat \<rightharpoonup> continuation"
  timers :: nat
  outcomes :: "(nat \<times> outcome) list"
  completed :: "nat list"
  console :: "logline list"
  called :: "(nat \<times> jsval list \<times> jsval option) list"
  stackLimit :: int

text \<open>
  Fields \<open>connection\<close> to \<open>hubProxies\<close> are the fields of the class (\<open>None\<close> is null or
  undefined); \<open>allHubProperties\<close> is the module-level table the decorators fill before
  the service is built. The rest is the world around the object:
  \<^item> \<open>subjects\<close> is the store of \<open>Subject\<close> objects, \<open>reconnectingObservable\<close> holds a
    reference into it, \<open>subjectCount\<close> is the next fresh reference;
  \<^item> \<open>transportLog\<close> lists the calls made on the connection; a promise returned by
    \<open>start\<close>, \<open>stop\<close> or \<open>hubProxy.invoke\<close> is named by the position of its call in that
    log, and the three promise maps hold the subscriber of each unsettled one;
  \<^item> \<open>timers\<close> counts the \<open>delay(1000)\<close> promises awaited by \<open>tryReconnect\<close>;
  \<^item> \<open>emitted\<close>, \<open>outcomes\<close>, \<open>console\<close> and \<open>called\<close> record, in order, what the
    emitters emitted, what callers' subscriptions received, what was logged, and which
    listener callbacks were applied (owner, arguments, thrown value);
  \<^item> \<open>completed\<close> lists the callers whose observable has completed: an observable
    made from a promise completes after its value, one fed by a Subject does not, since
    the service never calls \<open>complete\<close> on a Subject (a \<open>toPromise()\<close> of it only
    settles on an error);
  \<^item> \<open>stackLimit\<close> is the number of nested calls of \<open>reconnectedCallback\<close> the
    engine's stack holds below an outermost one before it throws a RangeError.
  An observable returned by \<open>connect\<close>, \<open>disconnect\<close> or \<open>invoke\<close> is subscribed once, by
  the caller, as soon as it is returned (as \<open>toPromise()\<close> does in the example app).
  Subscribers of the four emitters are taken to return without calling the service.
\<close>

definition HubService_new :: "HubProperties list \<Rightarrow> HubService" where
  "HubService_new hubs =
     \<lparr> connection = None, errorConnecting = False, tryingReconnect = False,
       reconnectingObservable = None, deferredRegistrations = [], options = None,
       hubProxies = None, allHubProperties = hubs,
       subjects = (\<lambda>_. []), subjectCount = 0, emitted = [], transportLog = [],
       startPromises = Map.empty, stopPromises = Map.empty, invokePromises = Map.empty,
       timers = 0, outcomes = [], completed = [], console = [], called = [],
       stackLimit = 10000 \<rparr>"

text \<open>\<open>get connected()\<close>.\<close>

definition connected :: "HubService \<Rightarrow> bool" where
  "connected s = (case connection s of None \<Rightarrow> False | Some c \<Rightarrow> state c = StConnected)"

definition truthy :: "bool option \<Rightarrow> bool" where
  "truthy b = (b = Some True)"

definition emit :: "emission \<Rightarrow> HubService \<Rightarrow> HubService" where
  "emit e s = s\<lparr>emitted := emitted s @ [e]\<rparr>"

definition deliver :: "nat \<Rightarrow> outcome \<Rightarrow> HubService \<Rightarrow> HubService" where
  "deliver c r s = s\<lparr>outcomes := outcomes s @ [(c, r)]\<rparr>"

definition complete :: "nat \<Rightarrow> HubService \<Rightarrow> HubService" where
  "complete c s = s\<lparr>completed := completed s @ [c]\<rparr>"

text \<open>
  \<open>hubProxies\<close> and the \<open>events\<close> of a proxy are plain objects used as dictionaries:
  besides its own keys such an object answers \<open>in\<close> and indexing for the members of
  \<open>Object.prototype\<close>, listed here with their \<open>length\<close> (the arity of the function;
  \<open>__proto__\<close> is the prototype object and has none). Only assignment makes an own key.
  A hub named \<open>__proto__\<close> is modelled as an own key, which is what indexing by that
  name then returns.
\<close>

definition objectPrototype :: "(string \<times> nat option) list" where
  "objectPrototype =
     [(''constructor'', Some 1), (''__defineGetter__'', Some 2), (''__defineSetter__'', Some 2),
      (''hasOwnProperty'', Some 1), (''__lookupGetter__'', Some 1), (''__lookupSetter__'', Some 1),
      (''isPrototypeOf'', Some 1), (''propertyIsEnumerable'', Some 1), (''toString'', Some 0),
      (''valueOf'', Some 0), (''__proto__'', None), (''toLocaleString'', Some 0)]"

definition inherited :: "string \<Rightarrow> bool" where
  "inherited name = (map_of objectPrototype name \<noteq> None)"

section \<open>Group matching, hub proxies, registration\<close>

text \<open>\<open>matchesGroup\<close> rewrites \<open>this.options.hubGroups\<close> to an array on its way.\<close>

definition matchesGroup :: "groups option \<Rightarrow> HubService \<Rightarrow> (error + bool) \<times> HubService" where
  "matchesGroup hg s =
     (case options s of
        None \<Rightarrow> (Inl TypeError, s)
      | Some opts \<Rightarrow>
          (case (optionGroups opts, hg) of
             (None, Some _) \<Rightarrow> (Inr False, s)
           | (Some _, None) \<Rightarrow> (Inr False, s)
           | (None, None) \<Rightarrow> (Inr True, s)
           | (Some ours, Some theirs) \<Rightarrow>
               (let hs = (case theirs of OneGroup g \<Rightarrow> [g] | Groups gs \<Rightarrow> gs);
                    os = (case ours of OneGroup g \<Rightarrow> [g] | Groups gs \<Rightarrow> gs)
                in (Inr (list_ex (\<lambda>g. list_ex (\<lambda>ourGroup. g = ourGroup) os) hs),
                    s\<lparr>options := Some (opts\<lparr>optionGroups := Some (Groups os)\<rparr>)\<rparr>))))"

fun subscribeEvents ::
  "string \<Rightarrow> subscription list \<Rightarrow> eventsType \<Rightarrow> transportCall list
     \<Rightarrow> eventsType \<times> transportCall list" where
  "subscribeEvents h [] ev lg = (ev, lg)"
| "subscribeEvents h (sub # subs) ev lg =
     (if ev (eventName sub) \<noteq> None \<or> inherited (eventName sub)
      then subscribeEvents h subs ev lg
      else subscribeEvents h subs (ev(eventName sub \<mapsto> [])) (lg @ [On h (eventName sub)]))"

definition createHubProxy :: "HubProperties \<Rightarrow> HubService \<Rightarrow> hubProxyWrapper \<times> HubService" where
  "createHubProxy properties s =
     (case subscribeEvents (hubName properties) (subscriptions properties) Map.empty
             (transportLog s @ [CreateHubProxy (hubName properties)]) of
        (ev, lg) \<Rightarrow> (\<lparr>hubProxy = hubName properties, events = ev\<rparr>, s\<lparr>transportLog := lg\<rparr>))"

text \<open>The loop of \<open>register\<close> over the declared subscriptions. Pushing onto a list that
  \<open>createHubProxy\<close> never made (\<open>undefined\<close>, or a member of \<open>Object.prototype\<close>, neither
  of which has \<open>push\<close>) is a TypeError, after the earlier pushes have happened.\<close>

fun subscribeAll ::
  "hubInstance \<Rightarrow> subscription list \<Rightarrow> hubProxyWrapper \<Rightarrow> logline list
     \<Rightarrow> error option \<times> hubProxyWrapper \<times> logline list" where
  "subscribeAll inst [] w con = (None, w, con)"
| "subscribeAll inst (sub # subs) w con =
     (case members inst (functionName sub) of
        None \<Rightarrow> subscribeAll inst subs w (con @ [Warn (oid inst) (functionName sub)])
      | Some f \<Rightarrow>
          (case events w (eventName sub) of
             None \<Rightarrow> (Some TypeError, w, con)
           | Some ls \<Rightarrow>
               subscribeAll inst subs
                 (w\<lparr>events := (events w)(eventName sub \<mapsto> ls @ [\<lparr>thisObj = inst, callback = f\<rparr>])\<rparr>)
                 con))"

text \<open>The same loop when \<open>hubProxy\<close> is a member of \<open>Object.prototype\<close>: it has no
  \<open>events\<close>, so the first subscription whose method exists is a TypeError.\<close>

fun subscribeNowhere ::
  "hubInstance \<Rightarrow> subscription list \<Rightarrow> logline list \<Rightarrow> error option \<times> logline list" where
  "subscribeNowhere inst [] con = (None, con)"
| "subscribeNowhere inst (sub # subs) con =
     (case members inst (functionName sub) of
        None \<Rightarrow> subscribeNowhere inst subs (con @ [Warn (oid inst) (functionName sub)])
      | Some f \<Rightarrow> (Some TypeError, con))"

definition register :: "hubInstance \<Rightarrow> HubService \<Rightarrow> (error + HubWrapper option) \<times> HubService" where
  "register inst s =
     (case metadata inst of
        None \<Rightarrow> (Inl MissingHubDecorator, s)
      | Some hubProperties \<Rightarrow>
          if subscriptions hubProperties = [] then (Inl (NoSubscriptions (hubName hubProperties)), s)
          else
            (case hubProxies s of
               None \<Rightarrow>
                 (Inr (Some \<lparr>invokeHub = hubName hubProperties, unregisterOf = oid inst, hub = None\<rparr>),
                  s\<lparr>deferredRegistrations := deferredRegistrations s @ [inst]\<rparr>)
             | Some proxies \<Rightarrow>
                 (case proxies (hubName hubProperties) of
                    None \<Rightarrow>
                      if inherited (hubName hubProperties)
                      then
                        (case subscribeNowhere inst (subscriptions hubProperties) (console s) of
                           (err, con) \<Rightarrow>
                             (case err of
                                Some e \<Rightarrow> (Inl e, s\<lparr>console := con\<rparr>)
                              | None \<Rightarrow>
                                  (Inr (Some \<lparr>invokeHub = hubName hubProperties,
                                              unregisterOf = oid inst, hub = None\<rparr>),
                                   s\<lparr>console := con\<rparr>)))
                      else
                        (case matchesGroup (hubGroups hubProperties) s of
                           (Inl e, s') \<Rightarrow> (Inl e, s')
                         | (Inr m, s') \<Rightarrow>
                             if \<not> m then (Inr None, s')
                             else (Inl (InvalidHubName (hubName hubProperties)), s'))
                  | Some w \<Rightarrow>
                      (case subscribeAll inst (subscriptions hubProperties) w (console s) of
                         (err, w', con) \<Rightarrow>
                           (let s' = s\<lparr>hubProxies := Some (proxies(hubName hubProperties \<mapsto> w')),
                                       console := con\<rparr>
                            in case err of
                                 Some e \<Rightarrow> (Inl e, s')
                               | None \<Rightarrow>
                                   (Inr (Some \<lparr>invokeHub = hubName hubProperties,
                                               unregisterOf = oid inst,
                                               hub = Some (hubProxy w)\<rparr>), s'))))))"

text \<open>
  The inner loop of \<open>unregister\<close>: \<open>i\<close> runs from \<open>events.length - 1\<close> down to \<open>0\<close> and
  \<open>events.splice(i, 1)\<close> removes the entry at \<open>i\<close> when its owner is the instance. The
  first argument is \<open>i + 1\<close>. The outer loop skips an event whose list is \<open>undefined\<close>;
  for an event named like a member of \<open>Object.prototype\<close> of length at least one the
  inner loop reads \<open>thisObj\<close> of \<open>undefined\<close>, a TypeError after the earlier events have
  been done.
\<close>

fun spliceOwned :: "nat \<Rightarrow> hubInstance \<Rightarrow> eventType list \<Rightarrow> eventType list" where
  "spliceOwned 0 inst evs = evs"
| "spliceOwned (Suc i) inst evs =
     (if oid (thisObj (evs ! i)) \<noteq> oid inst then spliceOwned i inst evs
      else spliceOwned i inst (take i evs @ drop (Suc i) evs))"

fun unregisterAll ::
  "hubInstance \<Rightarrow> subscription list \<Rightarrow> eventsType \<Rightarrow> error option \<times> eventsType" where
  "unregisterAll inst [] ev = (None, ev)"
| "unregisterAll inst (sub # subs) ev =
     (case ev (eventName sub) of
        Some ls \<Rightarrow> unregisterAll inst subs (ev(eventName sub \<mapsto> spliceOwned (length ls) inst ls))
      | None \<Rightarrow>
          (case map_of objectPrototype (eventName sub) of
             Some (Some (Suc k)) \<Rightarrow> (Some TypeError, ev)
           | _ \<Rightarrow> unregisterAll inst subs ev))"

definition unregister :: "hubInstance \<Rightarrow> HubService \<Rightarrow> error option \<times> HubService" where
  "unregister inst s =
     (case metadata inst of
        None \<Rightarrow> (Some MissingHubDecorator, s)
      | Some hubProperties \<Rightarrow>
          (case hubProxies s of
             None \<Rightarrow> (Some TypeError, s)
           | Some proxies \<Rightarrow>
               (case proxies (hubName hubProperties) of
                  None \<Rightarrow> (if subscriptions hubProperties = [] then None else Some TypeError, s)
                | Some proxy \<Rightarrow>
                    (case unregisterAll inst (subscriptions hubProperties) (events proxy) of
                       (err, ev) \<Rightarrow>
                         (err,
                          s\<lparr>hubProxies := Some (proxies(hubName hubProperties \<mapsto>
                               proxy\<lparr>events := ev\<rparr>))\<rparr>)))))"

section \<open>Dispatch of inbound events\<close>

text \<open>The listener list of a hub event as the service holds it now.\<close>

definition listeners :: "string \<Rightarrow> string \<Rightarrow> HubService \<Rightarrow> eventType list option" where
  "listeners h e s =
     (case hubProxies s of
        None \<Rightarrow> None
      | Some proxies \<Rightarrow> (case proxies h of None \<Rightarrow> None | Some w \<Rightarrow> events w e))"

fun isSymbol :: "jsval \<Rightarrow> bool" where
  "isSymbol (JSymbol n) = True"
| "isSymbol _ = False"

text \<open>
  The loop \<open>for (let func of events)\<close> of \<open>hubMessageReceived\<close>. The iterator walks the
  array itself, the one \<open>unregister\<close> splices, by index: each round reads the list the
  service holds at that moment and stops when the index has reached its length. A round
  applies the callback; a handler that unregisters its instance does so before it
  returns or throws, and an exception of that \<open>unregister\<close> is what the handler throws.
  The \<open>catch\<close> block formats the thrown value into a template string for
  \<open>console.error\<close>; for a symbol that conversion throws a TypeError, which leaves
  \<open>hubMessageReceived\<close>. The first argument bounds the rounds; the list never grows
  during the loop, so its length at the start is enough.
\<close>

fun dispatchLive ::
  "nat \<Rightarrow> nat \<Rightarrow> string \<Rightarrow> subscription \<Rightarrow> jsval list \<Rightarrow> HubService
     \<Rightarrow> error option \<times> HubService" where
  "dispatchLive 0 i h sub args s = (None, s)"
| "dispatchLive (Suc n) i h sub args s =
     (case listeners h (eventName sub) s of
        None \<Rightarrow> (None, s)
      | Some evs \<Rightarrow>
          if length evs \<le> i then (None, s)
          else
            (let func = evs ! i;
                 u = (if fst (callback func args) then unregister (thisObj func) s else (None, s));
                 r = (case fst u of Some e \<Rightarrow> Some (JError e) | None \<Rightarrow> snd (callback func args));
                 s1 = (snd u)\<lparr>called := called (snd u) @ [(oid (thisObj func), args, r)]\<rparr>
             in case r of
                  None \<Rightarrow> dispatchLive n (Suc i) h sub args s1
                | Some err \<Rightarrow>
                    if isSymbol err then (Some TypeError, s1)
                    else dispatchLive n (Suc i) h sub args
                           (s1\<lparr>console := console s1 @ [Error h (eventName sub) err]\<rparr>)))"

text \<open>\<open>hub in this.hubProxies\<close> also holds for a member of \<open>Object.prototype\<close>, which has
  no \<open>events\<close>; a list that is \<open>undefined\<close> or such a member is not iterable.\<close>

definition hubMessageReceived ::
  "string \<Rightarrow> subscription \<Rightarrow> jsval list \<Rightarrow> HubService \<Rightarrow> error option \<times> HubService" where
  "hubMessageReceived h sub args s =
     (case hubProxies s of
        None \<Rightarrow> (Some TypeError, s)
      | Some proxies \<Rightarrow>
          (case proxies h of
             None \<Rightarrow> (if inherited h then Some TypeError else None, s)
           | Some w \<Rightarrow>
               (case events w (eventName sub) of
                  None \<Rightarrow> (Some TypeError, s)
                | Some ls \<Rightarrow> dispatchLive (length ls) 0 h sub args s)))"

section \<open>The reconnect gate\<close>

text \<open>\<open>this.reconnectingObservable = new Subject<boolean>()\<close>: a fresh Subject, with no
  observers, replaces whatever the field held.\<close>

definition newSubject :: "HubService \<Rightarrow> HubService" where
  "newSubject s =
     s\<lparr>reconnectingObservable := Some (subjectCount s),
       subjects := (subjects s)(subjectCount s := []),
       subjectCount := Suc (subjectCount s)\<rparr>"

definition subscribeSubject :: "nat \<Rightarrow> waiter \<Rightarrow> HubService \<Rightarrow> HubService" where
  "subscribeSubject g w s = s\<lparr>subjects := (subjects s)(g := subjects s g @ [w])\<rparr>"

text \<open>\<open>hubProxy.invoke(method, ...args)\<close>: the call goes to the connection and its
  promise is pending with the given continuation.\<close>

definition hubProxy_invoke ::
  "string \<Rightarrow> string \<Rightarrow> jsval list \<Rightarrow> continuation \<Rightarrow> HubService \<Rightarrow> HubService" where
  "hubProxy_invoke hp method args k s =
     s\<lparr>transportLog := transportLog s @ [HubInvoke hp method args],
       invokePromises := (invokePromises s)(length (transportLog s) \<mapsto> k)\<rparr>"

text \<open>
  The subscriber that \<open>tryReconnect\<close> passes to \<open>subscribe\<close> is an async function: on
  \<open>false\<close> it awaits \<open>delay(1000)\<close>; on \<open>true\<close> it calls \<open>this.reconnectedCallback()\<close>,
  here \<open>rc\<close>, and then clears \<open>tryingReconnect\<close>. What it throws rejects its own promise
  and reaches nobody.
\<close>

definition reconnectSubscriber ::
  "(HubService \<Rightarrow> error option \<times> HubService) \<Rightarrow> bool \<Rightarrow> HubService \<Rightarrow> HubService" where
  "reconnectSubscriber rc v s =
     (if \<not> v then s\<lparr>timers := Suc (timers s)\<rparr>
      else
        (case rc s of
           (Some e, s1) \<Rightarrow> s1
         | (None, s1) \<Rightarrow> s1\<lparr>tryingReconnect := False\<rparr>))"

text \<open>
  One observer of the Subject receives the value of \<open>next\<close>.
  \<^item> A subscriber of \<open>asObservable()\<close> receives the value.
  \<^item> The \<open>flatMap\<close> of \<open>invoke\<close> calls the hub proxy on \<open>true\<close>. On \<open>false\<close> it evaluates
    \<open>Observable.throw("SignalR disconnected")\<close>; the \<open>Observable\<close> imported from
    \<open>"rxjs"\<close> has no function \<open>throw\<close> (the other branch of \<open>invoke\<close> uses the imported
    \<open>throwError\<close>), so the call is a TypeError inside the projection, which \<open>flatMap\<close>
    passes on as the error of the observable. With a \<open>hubContainer\<close> that has no
    \<open>hubProxy\<close> the projection is a TypeError on either value.
  \<^item> The subscriber of \<open>tryReconnect\<close> is an observer of the Subject only when
    \<open>_connect\<close> was entered with a falsy \<open>ignoreReconnecting\<close>; on \<open>true\<close> its call of
    \<open>reconnectedCallback\<close> is a nested one, which finds the same Subject still held and
    calls \<open>next\<close> on it again.
  \<open>next\<close> hands the value to the observers the Subject has at the call, in order.
\<close>

fun next_waiter ::
  "(HubService \<Rightarrow> error option \<times> HubService) \<Rightarrow> waiter \<Rightarrow> bool \<Rightarrow> HubService \<Rightarrow> HubService" where
  "next_waiter rc (AsObservable (Caller c)) v s = deliver c (Next (JBool v)) s"
| "next_waiter rc (AsObservable ReconnectLoop) v s = reconnectSubscriber rc v s"
| "next_waiter rc (InvokeFlatMap hp method args c) v s =
     (if \<not> v then deliver c (Thrown TypeError) s
      else hubProxy_invoke hp method args (Direct c) s)"
| "next_waiter rc (InvokeNoProxy c) v s = deliver c (Thrown TypeError) s"

fun next_all ::
  "(HubService \<Rightarrow> error option \<times> HubService) \<Rightarrow> waiter list \<Rightarrow> bool \<Rightarrow> HubService \<Rightarrow> HubService" where
  "next_all rc [] v s = s"
| "next_all rc (w # ws) v s = next_all rc ws v (next_waiter rc w v s)"

definition subject_next ::
  "(HubService \<Rightarrow> error option \<times> HubService) \<Rightarrow> nat \<Rightarrow> bool \<Rightarrow> HubService \<Rightarrow> HubService" where
  "subject_next rc g v s = next_all rc (subjects s g) v s"

section \<open>Lifecycle callbacks\<close>

definition connectedCallback :: "HubService \<Rightarrow> HubService" where
  "connectedCallback s =
     (let s1 = s\<lparr>errorConnecting := \<not> connected s\<rparr>
      in emit (connectedEmit (connected s1)) s1)"

text \<open>\<open>connectionErrorCallback\<close> returns \<open>of(false)\<close>: the subscriber receives \<open>false\<close>.\<close>

definition connectionErrorCallback :: "HubService \<Rightarrow> HubService" where
  "connectionErrorCallback s =
     (let s1 = s\<lparr>errorConnecting := True\<rparr>
      in emit (disconnectedEmit (connected s1)) s1)"

text \<open>
  The body of \<open>reconnectedCallback\<close>, with \<open>rc\<close> for what a nested call of it does. The
  nesting cannot go on for ever: \<open>reconnectedAt n\<close> is a call with room for \<open>n\<close> frames of
  \<open>reconnectedCallback\<close> on the stack, the call with no room left throws a RangeError
  (inside the async subscriber, which ends there), and the calls above it run to their
  end, each one handing the value to the rest of its observers and clearing the field.
\<close>

definition reconnectedBody ::
  "(HubService \<Rightarrow> error option \<times> HubService) \<Rightarrow> HubService \<Rightarrow> error option \<times> HubService" where
  "reconnectedBody rc s =
     (let s1 = emit (reconnectedEmit (connected s)) s;
          s2 = emit (connectedEmit (connected s1)) s1
      in case reconnectingObservable s2 of
           None \<Rightarrow> (Some TypeError, s2)
         | Some g \<Rightarrow>
             (None, (subject_next rc g (connected s2) s2)\<lparr>reconnectingObservable := None\<rparr>))"

function reconnectedAt :: "int \<Rightarrow> HubService \<Rightarrow> error option \<times> HubService" where
  "reconnectedAt n s =
     (if n \<le> 0 then (Some RangeError, s)
      else reconnectedBody (\<lambda>s1. reconnectedAt (n - 1) s1) s)"
  by pat_completeness auto
termination
  by (relation "measure (\<lambda>(n, s). nat n)") auto

declare reconnectedAt.simps [simp del]

definition reconnectedCallback :: "HubService \<Rightarrow> error option \<times> HubService" where
  "reconnectedCallback s = reconnectedAt (stackLimit s + 1) s"

definition recconectingCallback :: "HubService \<Rightarrow> HubService" where
  "recconectingCallback s = newSubject (emit reconnectingEmit s)"

section \<open>Connecting\<close>

fun createProxies :: "HubProperties list \<Rightarrow> HubService \<Rightarrow> error option \<times> HubService" where
  "createProxies [] s = (None, s)"
| "createProxies (properties # rest) s =
     (case matchesGroup (hubGroups properties) s of
        (Inl e, s1) \<Rightarrow> (Some e, s1)
      | (Inr m, s1) \<Rightarrow>
          if \<not> m then createProxies rest s1
          else
            (case createHubProxy properties s1 of
               (w, s2) \<Rightarrow>
                 (case hubProxies s2 of
                    None \<Rightarrow> (Some TypeError, s2)
                  | Some proxies \<Rightarrow>
                      createProxies rest
                        (s2\<lparr>hubProxies := Some (proxies(hubName properties \<mapsto> w))\<rparr>))))"

fun registerDeferred :: "hubInstance list \<Rightarrow> HubService \<Rightarrow> error option \<times> HubService" where
  "registerDeferred [] s = (None, s)"
| "registerDeferred (inst # rest) s =
     (case register inst s of
        (Inl e, s1) \<Rightarrow> (Some e, s1)
      | (Inr _, s1) \<Rightarrow> registerDeferred rest s1)"

text \<open>A new \<open>$.hubConnection\<close> is in state disconnected. The last step installs the
  \<open>disconnected\<close>, \<open>reconnected\<close>, \<open>reconnecting\<close> and \<open>stateChanged\<close> callbacks.\<close>

definition initConnection :: "HubService \<Rightarrow> error option \<times> HubService" where
  "initConnection s =
     (case options s of
        None \<Rightarrow> (Some TypeError, s\<lparr>hubProxies := Some Map.empty\<rparr>)
      | Some opts \<Rightarrow>
          (let s1 = s\<lparr>hubProxies := Some Map.empty,
                      connection := Some \<lparr>connUrl = reading (url opts), connQs = qs opts,
                                           state = StDisconnected, hooked = False\<rparr>\<rparr>
           in case createProxies (allHubProperties s1) s1 of
                (Some e, s2) \<Rightarrow> (Some e, s2)
              | (None, s2) \<Rightarrow>
                  (case registerDeferred (deferredRegistrations s2) s2 of
                     (Some e, s3) \<Rightarrow> (Some e, s3)
                   | (None, s3) \<Rightarrow>
                       (None, s3\<lparr>connection :=
                                   map_option (\<lambda>c. c\<lparr>hooked := True\<rparr>) (connection s3)\<rparr>))))"

text \<open>
  \<open>_connect(ignoreReconnecting)\<close>, subscribed by \<open>obs\<close>. While a Subject is held and
  \<open>ignoreReconnecting\<close> is false the subscriber is attached to that Subject and nothing
  else happens; otherwise \<open>start()\<close> is called on the connection and the subscriber waits
  for its promise.
\<close>

definition private_connect :: "bool \<Rightarrow> observer \<Rightarrow> HubService \<Rightarrow> error option \<times> HubService" where
  "private_connect ignoreReconnecting obs s =
     (case (if ignoreReconnecting then None else reconnectingObservable s) of
        Some g \<Rightarrow> (None, subscribeSubject g (AsObservable obs) s)
      | None \<Rightarrow>
          (case (case connection s of None \<Rightarrow> initConnection s | Some _ \<Rightarrow> (None, s)) of
             (Some e, s1) \<Rightarrow> (Some e, s1)
           | (None, s1) \<Rightarrow>
               (None, s1\<lparr>transportLog := transportLog s1 @ [Start],
                         startPromises := (startPromises s1)(length (transportLog s1) \<mapsto> obs)\<rparr>)))"

text \<open>\<open>this.options = { url: "/signalr", attemptReconnects: false, ...options }\<close>: a key
  the caller's object has, whatever it holds, replaces the default.\<close>

definition connect :: "HubServiceOptions \<Rightarrow> nat \<Rightarrow> HubService \<Rightarrow> error option \<times> HubService" where
  "connect opts c s =
     private_connect False (Caller c)
       (s\<lparr>options := Some
            \<lparr>url = (case url opts of Absent \<Rightarrow> Present (Some ''/signalr'') | Present u \<Rightarrow> Present u),
             attemptReconnects =
               (case attemptReconnects opts of
                  Absent \<Rightarrow> Present (Some False) | Present a \<Rightarrow> Present a),
             qs = qs opts, optionGroups = optionGroups opts\<rparr>\<rparr>)"

definition disconnect :: "nat \<Rightarrow> HubService \<Rightarrow> error option \<times> HubService" where
  "disconnect c s =
     (case connection s of
        None \<Rightarrow> (Some TypeError, s)
      | Some _ \<Rightarrow>
          (None, s\<lparr>transportLog := transportLog s @ [Stop],
                   stopPromises := (stopPromises s)(length (transportLog s) \<mapsto> c)\<rparr>))"

text \<open>
  The subscriber of the observable that \<open>_connect\<close> builds from the promise of \<open>start\<close>
  receives the value, and the observable completes. For the subscriber of
  \<open>tryReconnect\<close> the call of \<open>reconnectedCallback\<close> is an outermost one.
\<close>

fun notify :: "observer \<Rightarrow> bool \<Rightarrow> HubService \<Rightarrow> HubService" where
  "notify (Caller c) v s = complete c (deliver c (Next (JBool v)) s)"
| "notify ReconnectLoop v s = reconnectSubscriber reconnectedCallback v s"

definition tryReconnect :: "HubService \<Rightarrow> error option \<times> HubService" where
  "tryReconnect s =
     (let s1 = newSubject (s\<lparr>tryingReconnect := True\<rparr>)
      in case options s1 of
           None \<Rightarrow> (Some TypeError, s1)
         | Some opts \<Rightarrow>
             private_connect (truthy (reading (attemptReconnects opts))) ReconnectLoop s1)"

definition disconnectedCallback :: "HubService \<Rightarrow> error option \<times> HubService" where
  "disconnectedCallback s =
     (if tryingReconnect s then (None, s)
      else
        (let s1 = emit (disconnectedEmit (connected s)) s
         in case options s1 of
              None \<Rightarrow> (Some TypeError, s1)
            | Some opts \<Rightarrow>
                if truthy (reading (attemptReconnects opts)) then tryReconnect s1
                else (None, s1)))"

section \<open>Invoking hub methods\<close>

text \<open>
  \<open>invoke\<close>. In the branch without a Subject \<open>hubProxy.invoke\<close> is called while the
  observable is built, and the observable, made from the promise, completes after its
  value. For a name that \<open>hubProxies\<close> only inherits from \<open>Object.prototype\<close> the
  container is not null and has no \<open>hubProxy\<close>: a TypeError at the call, or later inside
  the \<open>flatMap\<close>.
\<close>

definition invoke ::
  "string \<Rightarrow> string \<Rightarrow> jsval list \<Rightarrow> nat \<Rightarrow> HubService \<Rightarrow> error option \<times> HubService" where
  "invoke name method args c s =
     (case hubProxies s of
        None \<Rightarrow> (Some TypeError, s)
      | Some proxies \<Rightarrow>
          (case proxies name of
             None \<Rightarrow>
               if inherited name
               then
                 (case reconnectingObservable s of
                    Some g \<Rightarrow> (None, subscribeSubject g (InvokeNoProxy c) s)
                  | None \<Rightarrow> (Some TypeError, s))
               else (Some (InvalidHubName name), s)
           | Some hubContainer \<Rightarrow>
               (case reconnectingObservable s of
                  Some g \<Rightarrow>
                    (None, subscribeSubject g
                             (InvokeFlatMap (hubProxy hubContainer) method args c) s)
                | None \<Rightarrow>
                    (None, hubProxy_invoke (hubProxy hubContainer) method args
                             (CatchRetry c name method args) s))))"

section \<open>Settlement of promises and timers\<close>

definition startResolved :: "nat \<Rightarrow> HubService \<Rightarrow> HubService" where
  "startResolved p s =
     (case startPromises s p of
        None \<Rightarrow> s
      | Some obs \<Rightarrow>
          (let s1 = s\<lparr>startPromises := (startPromises s)(p := None)\<rparr>;
               v = connected s1
           in notify obs v (connectedCallback s1)))"

definition startRejected :: "nat \<Rightarrow> jsval \<Rightarrow> HubService \<Rightarrow> HubService" where
  "startRejected p err s =
     (case startPromises s p of
        None \<Rightarrow> s
      | Some obs \<Rightarrow>
          notify obs False
            (connectionErrorCallback (s\<lparr>startPromises := (startPromises s)(p := None)\<rparr>)))"

definition stopResolved :: "nat \<Rightarrow> HubService \<Rightarrow> HubService" where
  "stopResolved p s =
     (case stopPromises s p of
        None \<Rightarrow> s
      | Some c \<Rightarrow>
          complete c
            (deliver c (Next (JBool (connected s)))
               (s\<lparr>stopPromises := (stopPromises s)(p := None)\<rparr>)))"

definition stopRejected :: "nat \<Rightarrow> jsval \<Rightarrow> HubService \<Rightarrow> HubService" where
  "stopRejected p err s =
     (case stopPromises s p of
        None \<Rightarrow> s
      | Some c \<Rightarrow> deliver c (Failed err) (s\<lparr>stopPromises := (stopPromises s)(p := None)\<rparr>))"

text \<open>
  The promise of \<open>hubProxy.invoke\<close> resolves: the caller receives the value. In the
  branch without a Subject the observable then completes; the observable of the gated
  branch, the \<open>flatMap\<close> over the Subject, stays open.
\<close>

definition invokeResolved :: "nat \<Rightarrow> jsval \<Rightarrow> HubService \<Rightarrow> HubService" where
  "invokeResolved p v s =
     (case invokePromises s p of
        None \<Rightarrow> s
      | Some k \<Rightarrow>
          (let s1 = s\<lparr>invokePromises := (invokePromises s)(p := None)\<rparr>
           in case k of
                Direct c \<Rightarrow> deliver c (Next v) s1
              | CatchRetry c name method args \<Rightarrow> complete c (deliver c (Next v) s1)))"

text \<open>
  The \<open>catchError\<close> of \<open>invoke\<close>: when a Subject is held at the time of the rejection it
  returns \<open>this.invoke<T>(hubName, method, args)\<close>, the rest parameter holding one
  value, the array \<open>args\<close>; an exception of that call is the error of the observable.
\<close>

definition invokeRejected :: "nat \<Rightarrow> jsval \<Rightarrow> HubService \<Rightarrow> HubService" where
  "invokeRejected p err s =
     (case invokePromises s p of
        None \<Rightarrow> s
      | Some k \<Rightarrow>
          (let s1 = s\<lparr>invokePromises := (invokePromises s)(p := None)\<rparr>
           in case k of
                Direct c \<Rightarrow> deliver c (Failed err) s1
              | CatchRetry c name method args \<Rightarrow>
                  (case reconnectingObservable s1 of
                     None \<Rightarrow> deliver c (Failed err) s1
                   | Some _ \<Rightarrow>
                       (case invoke name method [JArr args] c s1 of
                          (Some e, s2) \<Rightarrow> deliver c (Thrown e) s2
                        | (None, s2) \<Rightarrow> s2))))"

definition delayElapsed :: "HubService \<Rightarrow> HubService" where
  "delayElapsed s =
     (if timers s = 0 then s else snd (tryReconnect (s\<lparr>timers := timers s - 1\<rparr>)))"

section \<open>Runs\<close>

text \<open>
  Everything that can happen to the service: a call of a public method, a settlement, a
  timer, or the connection calling a hook (which it can only do once \<open>initConnection\<close>
  has installed the callbacks; \<open>hubMessageReceived\<close> only for an event subscribed with
  \<open>hubProxy.on\<close>). \<open>StateChanged\<close> is the connection changing its own \<open>state\<close>; the
  \<open>stateChanged\<close> callback of the service writes to the connection's \<open>this\<close>, not to the
  service. An exception of a public method goes to its caller and the service lives on
  with the state reached at the throw.
\<close>

datatype event =
    Connect HubServiceOptions nat
  | Disconnect nat
  | Invoke string string "jsval list" nat
  | Register hubInstance
  | Unregister hubInstance
  | StartResolved nat
  | StartRejected nat jsval
  | StopResolved nat
  | StopRejected nat jsval
  | InvokeResolved nat jsval
  | InvokeRejected nat jsval
  | DelayElapsed
  | StateChanged connectionState
  | TransportDisconnected
  | TransportReconnecting
  | TransportReconnected
  | HubMessage string subscription "jsval list"

definition isHooked :: "HubService \<Rightarrow> bool" where
  "isHooked s = (case connection s of None \<Rightarrow> False | Some c \<Rightarrow> hooked c)"

fun step :: "event \<Rightarrow> HubService \<Rightarrow> HubService" where
  "step (Connect opts c) s = snd (connect opts c s)"
| "step (Disconnect c) s = snd (disconnect c s)"
| "step (Invoke name method args c) s = snd (invoke name method args c s)"
| "step (Register inst) s = snd (register inst s)"
| "step (Unregister inst) s = snd (unregister inst s)"
| "step (StartResolved p) s = startResolved p s"
| "step (StartRejected p err) s = startRejected p err s"
| "step (StopResolved p) s = stopResolved p s"
| "step (StopRejected p err) s = stopRejected p err s"
| "step (InvokeResolved p v) s = invokeResolved p v s"
| "step (InvokeRejected p err) s = invokeRejected p err s"
| "step DelayElapsed s = delayElapsed s"
| "step (StateChanged st) s =
     s\<lparr>connection := map_option (\<lambda>c. c\<lparr>state := st\<rparr>) (connection s)\<rparr>"
| "step TransportDisconnected s = (if isHooked s then snd (disconnectedCallback s) else s)"
| "step TransportReconnecting s = (if isHooked s then recconectingCallback s else s)"
| "step TransportReconnected s = (if isHooked s then snd (reconnectedCallback s) else s)"
| "step (HubMessage h sub args) s =
     (if List.member (transportLog s) (On h (eventName sub))
      then snd (hubMessageReceived h sub args s) else s)"

fun run :: "event list \<Rightarrow> HubService \<Rightarrow> HubService" where
  "run [] s = s"
| "run (e # es) s = run es (step e s)"

section \<open>Observations\<close>

text \<open>The proxy of a hub, as the service holds it.\<close>

definition proxyOf :: "string \<Rightarrow> HubService \<Rightarrow> hubProxyWrapper option" where
  "proxyOf h s = (case hubProxies s of None \<Rightarrow> None | Some proxies \<Rightarrow> proxies h)"

definition notOwnedBy :: "hubInstance \<Rightarrow> eventType \<Rightarrow> bool" where
  "notOwnedBy inst l = (oid (thisObj l) \<noteq> oid inst)"

text \<open>The three fields that the reconnection logic reads and writes.\<close>

definition flags :: "HubService \<Rightarrow> bool \<times> bool \<times> nat option" where
  "flags s = (errorConnecting s, tryingReconnect s, reconnectingObservable s)"

text \<open>The hub method calls that have reached the connection (the wire).\<close>

fun isHubInvoke :: "transportCall \<Rightarrow> bool" where
  "isHubInvoke (HubInvoke h m a) = True"
| "isHubInvoke _ = False"

definition hubInvokes :: "HubService \<Rightarrow> transportCall list" where
  "hubInvokes s = filter isHubInvoke (transportLog s)"

text \<open>\<open>quiet s s'\<close>: from \<open>s\<close> to \<open>s'\<close> no hub method call has reached the connection and
  the connection has not become connected.\<close>

definition quiet :: "HubService \<Rightarrow> HubService \<Rightarrow> bool" where
  "quiet s s' = (hubInvokes s' = hubInvokes s \<and> (connected s' \<longrightarrow> connected s))"

text \<open>
  The connection is known to be down: the emitters have announced a disconnect and no
  successful connect or reconnect since. Read off the emissions, oldest first.
\<close>

fun downAfter :: "bool \<Rightarrow> emission \<Rightarrow> bool" where
  "downAfter d (disconnectedEmit v) = True"
| "downAfter d (connectedEmit v) = (if v then False else d)"
| "downAfter d (reconnectedEmit v) = (if v then False else d)"
| "downAfter d reconnectingEmit = d"

definition knownDown :: "HubService \<Rightarrow> bool" where
  "knownDown s = foldl downAfter False (emitted s)"

text \<open>\<open>this.options.attemptReconnects\<close> is truthy.\<close>

definition reconnectsWanted :: "HubService \<Rightarrow> bool" where
  "reconnectsWanted s =
     (case options s of
        None \<Rightarrow> False
      | Some opts \<Rightarrow> truthy (reading (attemptReconnects opts)))"

section \<open>A chat hub with two services\<close>

text \<open>Hub \<open>chatHub\<close> declares the event \<open>messageReceived\<close>. The handler of service A
  throws, the handler of service B returns, the handler of service C calls
  \<open>this.hubWrapper.unregister()\<close> and then throws, the handler of service D throws a
  symbol.\<close>

definition messageReceived :: subscription where
  "messageReceived = \<lparr>eventName = ''messageReceived'', functionName = ''onMessage''\<rparr>"

definition chatHub :: HubProperties where
  "chatHub = \<lparr>hubName = ''chatHub'', hubGroups = None,
     subscriptions = [\<lparr>eventName = ''messageReceived'', functionName = ''onMessage''\<rparr>]\<rparr>"

definition serviceA :: hubInstance where
  "serviceA = \<lparr>oid = 1, metadata = Some chatHub,
     members = [''onMessage'' \<mapsto> (\<lambda>args. (False, Some (JStr ''boom'')))]\<rparr>"

definition serviceB :: hubInstance where
  "serviceB = \<lparr>oid = 2, metadata = Some chatHub,
     members = [''onMessage'' \<mapsto> (\<lambda>args. (False, None))]\<rparr>"

definition serviceC :: hubInstance where
  "serviceC = \<lparr>oid = 3, metadata = Some chatHub,
     members = [''onMessage'' \<mapsto> (\<lambda>args. (True, Some (JStr ''boom'')))]\<rparr>"

definition serviceD :: hubInstance where
  "serviceD = \<lparr>oid = 4, metadata = Some chatHub,
     members = [''onMessage'' \<mapsto> (\<lambda>args. (False, Some (JSymbol ''boom'')))]\<rparr>"

definition defaultOptions :: HubServiceOptions where
  "defaultOptions = \<lparr>url = Absent, attemptReconnects = Absent, qs = None, optionGroups = None\<rparr>"

text \<open>The service connects and two services register, the second one always B.\<close>

definition listenersWith :: "hubInstance \<Rightarrow> HubService" where
  "listenersWith first =
     run [Connect defaultOptions 0, Register first, Register serviceB] (HubService_new [chatHub])"

text \<open>Service B registers before \<open>connect\<close>: \<open>register\<close> queues it.\<close>

definition queuedService :: HubService where
  "queuedService = snd (register serviceB (HubService_new [chatHub]))"

text \<open>
  The service connects (the promise of \<open>start\<close> is call number 2 of the log) and the
  connection then drops, with and without \<open>attemptReconnects\<close>. With it, the first
  reconnect attempt is under way: Subject 0 is held and \<open>start\<close> number 3 is pending.
\<close>

definition reconnectOptions :: HubServiceOptions where
  "reconnectOptions =
     \<lparr>url = Absent, attemptReconnects = Present (Some True), qs = None, optionGroups = None\<rparr>"

definition connectedService :: "HubServiceOptions \<Rightarrow> HubService" where
  "connectedService opts =
     run [Connect opts 0, StateChanged StConnected, StartResolved 2] (HubService_new [chatHub])"

definition droppedNoRetry :: HubService where
  "droppedNoRetry =
     run [StateChanged StDisconnected, TransportDisconnected] (connectedService defaultOptions)"

definition droppedRetrying :: HubService where
  "droppedRetrying =
     run [StateChanged StDisconnected, TransportDisconnected] (connectedService reconnectOptions)"

text \<open>Three reconnect attempts fail and the fourth succeeds; callers 1 to 4 each invoke
  \<open>sendMessage\<close> during one of the attempts.\<close>

definition fourAttempts :: "event list" where
  "fourAttempts =
     [Invoke ''chatHub'' ''sendMessage'' [JStr ''alice'', JStr ''one''] 1,
      StartRejected 3 JNull, DelayElapsed,
      Invoke ''chatHub'' ''sendMessage'' [JStr ''alice'', JStr ''two''] 2,
      StartRejected 4 JNull, DelayElapsed,
      Invoke ''chatHub'' ''sendMessage'' [JStr ''alice'', JStr ''three''] 3,
      StartRejected 5 JNull, DelayElapsed,
      Invoke ''chatHub'' ''sendMessage'' [JStr ''alice'', JStr ''four''] 4,
      StateChanged StConnected, StartResolved 6]"

text \<open>A call is in flight when the connection drops; its promise is rejected while the
  first reconnect attempt runs, and the attempt then succeeds.\<close>

definition lostMidCall :: "event list" where
  "lostMidCall =
     [Invoke ''chatHub'' ''sendMessage'' [JStr ''alice'', JStr ''hi''] 1,
      StateChanged StDisconnected, TransportDisconnected,
      InvokeRejected 3 (JStr ''lost''),
      StateChanged StConnected, StartResolved 4]"

section \<open>What each operation leaves alone\<close>

lemma flags_simps [simp]:
  "flags (s\<lparr>connection := a\<rparr>) = flags s"
  "flags (s\<lparr>deferredRegistrations := b\<rparr>) = flags s"
  "flags (s\<lparr>options := c\<rparr>) = flags s"
  "flags (s\<lparr>hubProxies := d\<rparr>) = flags s"
  "flags (s\<lparr>subjects := e\<rparr>) = flags s"
  "flags (s\<lparr>subjectCount := f\<rparr>) = flags s"
  "flags (s\<lparr>emitted := g\<rparr>) = flags s"
  "flags (s\<lparr>transportLog := h\<rparr>) = flags s"
  "flags (s\<lparr>startPromises := i\<rparr>) = flags s"
  "flags (s\<lparr>stopPromises := j\<rparr>) = flags s"
  "flags (s\<lparr>invokePromises := k\<rparr>) = flags s"
  "flags (s\<lparr>timers := l\<rparr>) = flags s"
  "flags (s\<lparr>outcomes := m\<rparr>) = flags s"
  "flags (s\<lparr>completed := m'\<rparr>) = flags s"
  "flags (s\<lparr>console := n\<rparr>) = flags s"
  "flags (s\<lparr>called := p\<rparr>) = flags s"
  "flags (s\<lparr>stackLimit := q\<rparr>) = flags s"
  by (simp_all add: flags_def)

lemma flags_matchesGroup [simp]: "flags (snd (matchesGroup hg s)) = flags s"
  by (auto simp: matchesGroup_def Let_def split: option.splits groups.splits)

lemma flags_createHubProxy [simp]: "flags (snd (createHubProxy p s)) = flags s"
  by (auto simp: createHubProxy_def split: prod.splits)

lemma flags_register [simp]: "flags (snd (register inst s)) = flags s"
proof -
  have m: "\<And>hg a s'. matchesGroup hg s = (a, s') \<Longrightarrow> flags s' = flags s"
    by (metis flags_matchesGroup snd_conv)
  show ?thesis
    by (auto simp: register_def Let_def split: option.splits prod.splits sum.splits dest: m)
qed

lemma flags_unregister [simp]: "flags (snd (unregister inst s)) = flags s"
  by (auto simp: unregister_def split_beta split: option.splits)

lemma flags_dispatchLive [simp]: "flags (snd (dispatchLive n i h sub args s)) = flags s"
proof (induction n arbitrary: i s)
  case 0
  then show ?case by simp
next
  case (Suc n)
  show ?case
    by (auto simp: Let_def Suc.IH split: option.splits)
qed

lemma flags_hubMessageReceived [simp]: "flags (snd (hubMessageReceived h sub args s)) = flags s"
  by (auto simp: hubMessageReceived_def split: option.splits)

lemma flags_createProxies [simp]: "flags (snd (createProxies ps s)) = flags s"
proof (induction ps arbitrary: s)
  case Nil
  then show ?case by simp
next
  case (Cons p ps)
  have m: "\<And>a s'. matchesGroup (hubGroups p) s = (a, s') \<Longrightarrow> flags s' = flags s"
    by (metis flags_matchesGroup snd_conv)
  have c: "\<And>a s0 s'. createHubProxy p s0 = (a, s') \<Longrightarrow> flags s' = flags s0"
    by (metis flags_createHubProxy snd_conv)
  show ?case
    by (auto simp: Cons.IH split: prod.splits sum.splits option.splits dest!: m c)
qed

lemma flags_registerDeferred [simp]: "flags (snd (registerDeferred is s)) = flags s"
proof (induction "is" arbitrary: s)
  case Nil
  then show ?case by simp
next
  case (Cons i "is")
  have r: "\<And>a s'. register i s = (a, s') \<Longrightarrow> flags s' = flags s"
    by (metis flags_register snd_conv)
  show ?case
    by (auto simp: Cons.IH split: prod.splits sum.splits dest!: r)
qed

lemma flags_initConnection [simp]: "flags (snd (initConnection s)) = flags s"
proof -
  have c: "\<And>ps s0 a s'. createProxies ps s0 = (a, s') \<Longrightarrow> flags s' = flags s0"
    by (metis flags_createProxies snd_conv)
  have r: "\<And>ps s0 a s'. registerDeferred ps s0 = (a, s') \<Longrightarrow> flags s' = flags s0"
    by (metis flags_registerDeferred snd_conv)
  show ?thesis
    by (auto simp: initConnection_def Let_def split: option.splits prod.splits dest!: c r)
qed

lemma flags_private_connect [simp]: "flags (snd (private_connect ign obs s)) = flags s"
proof -
  have c: "\<And>s0 a s'. initConnection s0 = (a, s') \<Longrightarrow> flags s' = flags s0"
    by (metis flags_initConnection snd_conv)
  show ?thesis
    by (auto simp: private_connect_def subscribeSubject_def split: option.splits prod.splits dest!: c)
qed

lemma flags_connect [simp]: "flags (snd (connect opts c s)) = flags s"
  by (simp add: connect_def)

lemma flags_disconnect [simp]: "flags (snd (disconnect c s)) = flags s"
  by (auto simp: disconnect_def split: option.splits)

lemma flags_invoke [simp]: "flags (snd (invoke name method args c s)) = flags s"
  by (auto simp: invoke_def subscribeSubject_def hubProxy_invoke_def split: option.splits)

lemma flags_deliver [simp]: "flags (deliver c r s) = flags s"
  by (simp add: deliver_def)

lemma flags_complete [simp]: "flags (complete c s) = flags s"
  by (simp add: complete_def)

lemma flags_emit [simp]: "flags (emit e s) = flags s"
  by (simp add: emit_def)

lemma flags_invokeResolved [simp]: "flags (invokeResolved p v s) = flags s"
  by (auto simp: invokeResolved_def Let_def split: option.splits continuation.splits)

lemma flags_invokeRejected [simp]: "flags (invokeRejected p err s) = flags s"
proof -
  have i: "\<And>n m a c s0 r s'. invoke n m a c s0 = (r, s') \<Longrightarrow> flags s' = flags s0"
    by (metis flags_invoke snd_conv)
  show ?thesis
    by (auto simp: invokeRejected_def Let_def split: option.splits continuation.splits prod.splits
             dest!: i)
qed

lemma flags_stopResolved [simp]: "flags (stopResolved p s) = flags s"
  by (auto simp: stopResolved_def split: option.splits)

lemma flags_stopRejected [simp]: "flags (stopRejected p err s) = flags s"
  by (auto simp: stopRejected_def split: option.splits)

lemma flagsD:
  "flags a = flags b \<Longrightarrow>
     errorConnecting a = errorConnecting b \<and> tryingReconnect a = tryingReconnect b \<and>
     reconnectingObservable a = reconnectingObservable b"
  by (simp add: flags_def)

lemma flags_newSubject: "flags (newSubject s) = (errorConnecting s, tryingReconnect s, Some (subjectCount s))"
  by (simp add: newSubject_def flags_def)

lemma flags_recconectingCallback:
  "flags (recconectingCallback s) = (errorConnecting s, tryingReconnect s, Some (subjectCount s))"
  by (simp add: recconectingCallback_def newSubject_def flags_def emit_def)

lemma flags_connectedCallback:
  "flags (connectedCallback s) = (\<not> connected s, tryingReconnect s, reconnectingObservable s)"
  by (simp add: connectedCallback_def Let_def flags_def emit_def)

lemma flags_connectionErrorCallback:
  "flags (connectionErrorCallback s) = (True, tryingReconnect s, reconnectingObservable s)"
  by (simp add: connectionErrorCallback_def Let_def flags_def emit_def)

lemma flags_tryReconnect:
  "flags (snd (tryReconnect s)) = (errorConnecting s, True, Some (subjectCount s))"
proof -
  let ?s1 = "newSubject (s\<lparr>tryingReconnect := True\<rparr>)"
  have f: "flags ?s1 = (errorConnecting s, True, Some (subjectCount s))"
    by (simp add: newSubject_def flags_def)
  show ?thesis
  proof (cases "options ?s1")
    case None
    with f show ?thesis by (simp add: tryReconnect_def Let_def)
  next
    case (Some opts)
    with f show ?thesis by (simp add: tryReconnect_def Let_def)
  qed
qed

lemma flags_disconnectedCallback:
  "flags (snd (disconnectedCallback s)) =
     (if tryingReconnect s then flags s
      else case options s of
             None \<Rightarrow> flags s
           | Some opts \<Rightarrow>
               if truthy (reading (attemptReconnects opts))
               then (errorConnecting s, True, Some (subjectCount s)) else flags s)"
proof (cases "tryingReconnect s")
  case True
  then show ?thesis by (simp add: disconnectedCallback_def)
next
  case False
  let ?s1 = "emit (disconnectedEmit (connected s)) s"
  have o: "options ?s1 = options s" "errorConnecting ?s1 = errorConnecting s"
          "subjectCount ?s1 = subjectCount s" by (simp_all add: emit_def)
  show ?thesis
  proof (cases "options s")
    case None
    with False o show ?thesis by (simp add: disconnectedCallback_def Let_def)
  next
    case (Some opts)
    with False o flags_tryReconnect[of ?s1] show ?thesis
      by (simp add: disconnectedCallback_def Let_def)
  qed
qed









section \<open>Operations that call no hub method\<close>

lemma hubInvokes_simps [simp]:
  "hubInvokes (s\<lparr>connection := a\<rparr>) = hubInvokes s"
  "hubInvokes (s\<lparr>errorConnecting := a1\<rparr>) = hubInvokes s"
  "hubInvokes (s\<lparr>tryingReconnect := a2\<rparr>) = hubInvokes s"
  "hubInvokes (s\<lparr>reconnectingObservable := a3\<rparr>) = hubInvokes s"
  "hubInvokes (s\<lparr>deferredRegistrations := b\<rparr>) = hubInvokes s"
  "hubInvokes (s\<lparr>options := c\<rparr>) = hubInvokes s"
  "hubInvokes (s\<lparr>hubProxies := d\<rparr>) = hubInvokes s"
  "hubInvokes (s\<lparr>subjects := e\<rparr>) = hubInvokes s"
  "hubInvokes (s\<lparr>subjectCount := f\<rparr>) = hubInvokes s"
  "hubInvokes (s\<lparr>emitted := g\<rparr>) = hubInvokes s"
  "hubInvokes (s\<lparr>startPromises := i\<rparr>) = hubInvokes s"
  "hubInvokes (s\<lparr>stopPromises := j\<rparr>) = hubInvokes s"
  "hubInvokes (s\<lparr>invokePromises := k\<rparr>) = hubInvokes s"
  "hubInvokes (s\<lparr>timers := l\<rparr>) = hubInvokes s"
  "hubInvokes (s\<lparr>outcomes := m\<rparr>) = hubInvokes s"
  "hubInvokes (s\<lparr>completed := m'\<rparr>) = hubInvokes s"
  "hubInvokes (s\<lparr>console := n\<rparr>) = hubInvokes s"
  "hubInvokes (s\<lparr>called := p\<rparr>) = hubInvokes s"
  "hubInvokes (s\<lparr>stackLimit := q\<rparr>) = hubInvokes s"
  by (simp_all add: hubInvokes_def)

lemma connected_simps [simp]:
  "connected (s\<lparr>errorConnecting := a1\<rparr>) = connected s"
  "connected (s\<lparr>tryingReconnect := a2\<rparr>) = connected s"
  "connected (s\<lparr>reconnectingObservable := a3\<rparr>) = connected s"
  "connected (s\<lparr>deferredRegistrations := b\<rparr>) = connected s"
  "connected (s\<lparr>options := c\<rparr>) = connected s"
  "connected (s\<lparr>hubProxies := d\<rparr>) = connected s"
  "connected (s\<lparr>subjects := e\<rparr>) = connected s"
  "connected (s\<lparr>subjectCount := f\<rparr>) = connected s"
  "connected (s\<lparr>emitted := g\<rparr>) = connected s"
  "connected (s\<lparr>transportLog := h\<rparr>) = connected s"
  "connected (s\<lparr>startPromises := i\<rparr>) = connected s"
  "connected (s\<lparr>stopPromises := j\<rparr>) = connected s"
  "connected (s\<lparr>invokePromises := k\<rparr>) = connected s"
  "connected (s\<lparr>timers := l\<rparr>) = connected s"
  "connected (s\<lparr>outcomes := m\<rparr>) = connected s"
  "connected (s\<lparr>completed := m'\<rparr>) = connected s"
  "connected (s\<lparr>console := n\<rparr>) = connected s"
  "connected (s\<lparr>called := p\<rparr>) = connected s"
  "connected (s\<lparr>stackLimit := q\<rparr>) = connected s"
  by (simp_all add: connected_def)

lemma quiet_refl [simp]: "quiet s s"
  by (simp add: quiet_def)

lemma quiet_trans: "quiet a b \<Longrightarrow> quiet b c \<Longrightarrow> quiet a c"
  by (auto simp: quiet_def)

lemma quiet_matchesGroup: "quiet s (snd (matchesGroup hg s))"
  by (auto simp: matchesGroup_def Let_def quiet_def split: option.splits groups.splits)

lemma subscribeEvents_log:
  "filter isHubInvoke (snd (subscribeEvents h subs ev lg)) = filter isHubInvoke lg"
  by (induction subs arbitrary: ev lg) auto

lemma quiet_createHubProxy: "quiet s (snd (createHubProxy p s))"
  using subscribeEvents_log[of "hubName p" "subscriptions p" Map.empty
          "transportLog s @ [CreateHubProxy (hubName p)]"]
  by (simp add: createHubProxy_def split_beta quiet_def hubInvokes_def)

lemma quiet_register: "quiet s (snd (register inst s))"
  using quiet_matchesGroup[of s]
  by (auto simp: register_def Let_def split_beta quiet_def split: option.splits sum.splits)

lemma quiet_unregister: "quiet s (snd (unregister inst s))"
  by (auto simp: unregister_def quiet_def split_beta split: option.splits)

lemma quiet_dispatchLive: "quiet s (snd (dispatchLive n i h sub args s))"
proof (induction n arbitrary: i s)
  case 0
  then show ?case by simp
next
  case (Suc n)
  show ?case
  proof (cases "listeners h (eventName sub) s")
    case None
    then show ?thesis by simp
  next
    case (Some evs)
    show ?thesis
    proof (cases "length evs \<le> i")
      case True
      with Some show ?thesis by simp
    next
      case False
      let ?func = "evs ! i"
      let ?u = "if fst (callback ?func args) then unregister (thisObj ?func) s else (None, s)"
      let ?r = "case fst ?u of Some e \<Rightarrow> Some (JError e) | None \<Rightarrow> snd (callback ?func args)"
      let ?s1 = "(snd ?u)\<lparr>called := called (snd ?u) @ [(oid (thisObj ?func), args, ?r)]\<rparr>"
      have u: "quiet s (snd ?u)" by (simp add: quiet_unregister)
      then have q1: "quiet s ?s1" by (simp add: quiet_def)
      show ?thesis
      proof (cases ?r)
        case None
        with Some False quiet_trans[OF q1 Suc.IH[of ?s1 "Suc i"]] show ?thesis
          by (simp add: Let_def)
      next
        case (Some err)
        let ?s2 = "?s1\<lparr>console := console ?s1 @ [Error h (eventName sub) err]\<rparr>"
        from q1 have "quiet s ?s2" by (simp add: quiet_def)
        from quiet_trans[OF this Suc.IH[of ?s2 "Suc i"]] q1 Some False
          \<open>listeners h (eventName sub) s = Some evs\<close>
        show ?thesis by (simp add: Let_def)
      qed
    qed
  qed
qed

lemma quiet_hubMessageReceived: "quiet s (snd (hubMessageReceived h sub args s))"
  by (auto simp: hubMessageReceived_def quiet_dispatchLive split: option.splits)

lemma quiet_createProxies: "quiet s (snd (createProxies ps s))"
proof (induction ps arbitrary: s)
  case Nil
  then show ?case by simp
next
  case (Cons p ps)
  let ?s1 = "snd (matchesGroup (hubGroups p) s)"
  let ?s2 = "snd (createHubProxy p ?s1)"
  have q2: "quiet s ?s2"
    by (rule quiet_trans[OF quiet_matchesGroup quiet_createHubProxy])
  show ?case
  proof (cases "fst (matchesGroup (hubGroups p) s)")
    case (Inl e)
    then show ?thesis using quiet_matchesGroup[of s "hubGroups p"] by (simp add: split_beta)
  next
    case (Inr m)
    show ?thesis
    proof (cases m)
      case False
      with Inr quiet_trans[OF quiet_matchesGroup Cons.IH] show ?thesis
        by (simp add: split_beta)
    next
      case True
      show ?thesis
      proof (cases "hubProxies ?s2")
        case None
        with Inr True q2 show ?thesis by (simp add: split_beta)
      next
        case (Some proxies)
        let ?s3 = "?s2\<lparr>hubProxies := Some (proxies(hubName p \<mapsto> fst (createHubProxy p ?s1)))\<rparr>"
        have "quiet s ?s3" using q2 by (simp add: quiet_def)
        from quiet_trans[OF this Cons.IH] Inr True Some show ?thesis
          by (simp add: split_beta)
      qed
    qed
  qed
qed

lemma quiet_registerDeferred: "quiet s (snd (registerDeferred is s))"
proof (induction "is" arbitrary: s)
  case Nil
  then show ?case by simp
next
  case (Cons i "is")
  show ?case
  proof (cases "fst (register i s)")
    case (Inl e)
    with quiet_register[of s i] show ?thesis by (simp add: split_beta)
  next
    case (Inr w)
    with quiet_trans[OF quiet_register Cons.IH] show ?thesis by (simp add: split_beta)
  qed
qed

lemma quiet_initConnection: "quiet s (snd (initConnection s))"
proof (cases "options s")
  case None
  then show ?thesis by (simp add: initConnection_def quiet_def)
next
  case (Some opts)
  let ?s1 = "s\<lparr>hubProxies := Some Map.empty,
                connection := Some \<lparr>connUrl = reading (url opts), connQs = qs opts,
                                     state = StDisconnected, hooked = False\<rparr>\<rparr>"
  let ?s2 = "snd (createProxies (allHubProperties ?s1) ?s1)"
  let ?s3 = "snd (registerDeferred (deferredRegistrations ?s2) ?s2)"
  have q1: "quiet s ?s1" by (simp add: quiet_def connected_def)
  have q2: "quiet s ?s2" by (rule quiet_trans[OF q1 quiet_createProxies])
  have q3: "quiet s ?s3" by (rule quiet_trans[OF q2 quiet_registerDeferred])
  have c1: "\<not> connected ?s1" by (simp add: connected_def)
  have c2: "\<not> connected ?s2" using c1 quiet_createProxies[of ?s1] by (auto simp: quiet_def)
  have c3: "\<not> connected ?s3" using c2 quiet_registerDeferred[of ?s2] by (auto simp: quiet_def)
  have h: "\<not> connected (?s3\<lparr>connection := map_option (\<lambda>c. c\<lparr>hooked := True\<rparr>) (connection ?s3)\<rparr>)"
    using c3 by (auto simp: connected_def split: option.splits)
  have q4: "quiet s (?s3\<lparr>connection := map_option (\<lambda>c. c\<lparr>hooked := True\<rparr>) (connection ?s3)\<rparr>)"
    using q3 h by (simp add: quiet_def)
  show ?thesis
  proof (cases "fst (createProxies (allHubProperties ?s1) ?s1)")
    case (Some e)
    with \<open>options s = Some opts\<close> q2 show ?thesis
      by (simp add: initConnection_def Let_def split_beta)
  next
    case None
    note cp = this
    show ?thesis
    proof (cases "fst (registerDeferred (deferredRegistrations ?s2) ?s2)")
      case (Some e)
      with cp \<open>options s = Some opts\<close> q3 show ?thesis
        by (simp add: initConnection_def Let_def split_beta)
    next
      case None
      with cp \<open>options s = Some opts\<close> q4 show ?thesis
        by (simp add: initConnection_def Let_def split_beta)
    qed
  qed
qed

lemma quiet_private_connect: "quiet s (snd (private_connect ign obs s))"
proof (cases "if ign then None else reconnectingObservable s")
  case (Some g)
  then show ?thesis by (simp add: private_connect_def subscribeSubject_def quiet_def)
next
  case None
  let ?i = "case connection s of None \<Rightarrow> initConnection s | Some _ \<Rightarrow> (None, s)"
  have q: "quiet s (snd ?i)" by (cases "connection s") (simp_all add: quiet_initConnection)
  then have "quiet s (snd ?i\<lparr>transportLog := transportLog (snd ?i) @ [Start],
               startPromises := (startPromises (snd ?i))(length (transportLog (snd ?i)) \<mapsto> obs)\<rparr>)"
    by (simp add: quiet_def hubInvokes_def)
  with None q show ?thesis
    by (cases "fst ?i") (simp_all add: private_connect_def split_beta)
qed

lemma quiet_connect: "quiet s (snd (connect opts c s))"
  using quiet_private_connect[of "s\<lparr>options := Some
            \<lparr>url = (case url opts of Absent \<Rightarrow> Present (Some ''/signalr'') | Present u \<Rightarrow> Present u),
             attemptReconnects =
               (case attemptReconnects opts of
                  Absent \<Rightarrow> Present (Some False) | Present a \<Rightarrow> Present a),
             qs = qs opts, optionGroups = optionGroups opts\<rparr>\<rparr>" False "Caller c"]
  by (simp add: connect_def quiet_def)

lemma quiet_disconnect: "quiet s (snd (disconnect c s))"
  by (auto simp: disconnect_def quiet_def hubInvokes_def split: option.splits)

lemma quiet_tryReconnect: "quiet s (snd (tryReconnect s))"
proof -
  let ?s1 = "newSubject (s\<lparr>tryingReconnect := True\<rparr>)"
  have q: "quiet s ?s1" by (simp add: newSubject_def quiet_def)
  show ?thesis
  proof (cases "options ?s1")
    case None
    with q show ?thesis by (simp add: tryReconnect_def Let_def)
  next
    case (Some opts)
    with quiet_trans[OF q quiet_private_connect] show ?thesis
      by (simp add: tryReconnect_def Let_def)
  qed
qed

lemma quiet_disconnectedCallback: "quiet s (snd (disconnectedCallback s))"
proof (cases "tryingReconnect s")
  case True
  then show ?thesis by (simp add: disconnectedCallback_def)
next
  case False
  let ?s1 = "emit (disconnectedEmit (connected s)) s"
  have q: "quiet s ?s1" by (simp add: emit_def quiet_def)
  show ?thesis
  proof (cases "options ?s1")
    case None
    with False q show ?thesis by (simp add: disconnectedCallback_def Let_def)
  next
    case (Some opts)
    with False q quiet_trans[OF q quiet_tryReconnect] show ?thesis
      by (simp add: disconnectedCallback_def Let_def)
  qed
qed

lemma quiet_delayElapsed: "quiet s (delayElapsed s)"
proof -
  have "quiet s (s\<lparr>timers := timers s - 1\<rparr>)" by (simp add: quiet_def)
  from quiet_trans[OF this quiet_tryReconnect] show ?thesis
    by (simp add: delayElapsed_def)
qed

lemma quiet_invoke_gated:
  "reconnectingObservable s \<noteq> None \<Longrightarrow> quiet s (snd (invoke name method args c s))"
  by (auto simp: invoke_def subscribeSubject_def quiet_def split: option.splits)

lemma quiet_invokeResolved: "quiet s (invokeResolved p v s)"
  by (auto simp: invokeResolved_def Let_def deliver_def complete_def quiet_def
           split: option.splits continuation.splits)

lemma quiet_invokeRejected:
  assumes "reconnectingObservable s \<noteq> None"
  shows "quiet s (invokeRejected p err s)"
proof (cases "invokePromises s p")
  case None
  then show ?thesis by (simp add: invokeRejected_def)
next
  case (Some k)
  let ?s1 = "s\<lparr>invokePromises := (invokePromises s)(p := None)\<rparr>"
  have q: "quiet s ?s1" by (simp add: quiet_def)
  have g: "reconnectingObservable ?s1 \<noteq> None" using assms by simp
  show ?thesis
  proof (cases k)
    case (Direct c)
    with Some show ?thesis by (simp add: invokeRejected_def Let_def deliver_def quiet_def)
  next
    case (CatchRetry c name meth args)
    let ?s2 = "snd (invoke name meth [JArr args] c ?s1)"
    have q2: "quiet s ?s2" by (rule quiet_trans[OF q quiet_invoke_gated[OF g]])
    then have "quiet s (deliver c (Thrown e) ?s2)" for e by (simp add: deliver_def quiet_def)
    with q2 Some CatchRetry g show ?thesis
      by (cases "fst (invoke name meth [JArr args] c ?s1)")
         (auto simp: invokeRejected_def Let_def split_beta)
  qed
qed

lemma quiet_stopResolved: "quiet s (stopResolved p s)"
  by (auto simp: stopResolved_def deliver_def complete_def quiet_def split: option.splits)

lemma quiet_stopRejected: "quiet s (stopRejected p err s)"
  by (auto simp: stopRejected_def deliver_def quiet_def split: option.splits)

lemma quiet_notify_False: "quiet s (notify obs False s)"
  by (cases obs) (simp_all add: deliver_def complete_def reconnectSubscriber_def quiet_def)

lemma quiet_startResolved:
  assumes "\<not> connected s"
  shows "quiet s (startResolved p s)"
proof (cases "startPromises s p")
  case None
  then show ?thesis by (simp add: startResolved_def)
next
  case (Some obs)
  let ?s1 = "s\<lparr>startPromises := (startPromises s)(p := None)\<rparr>"
  have "quiet s (connectedCallback ?s1)"
    by (simp add: connectedCallback_def Let_def emit_def quiet_def)
  from quiet_trans[OF this quiet_notify_False] Some assms show ?thesis
    by (simp add: startResolved_def Let_def)
qed

lemma quiet_startRejected: "quiet s (startRejected p err s)"
proof (cases "startPromises s p")
  case None
  then show ?thesis by (simp add: startRejected_def)
next
  case (Some obs)
  let ?s1 = "s\<lparr>startPromises := (startPromises s)(p := None)\<rparr>"
  have "quiet s (connectionErrorCallback ?s1)"
    by (simp add: connectionErrorCallback_def Let_def emit_def quiet_def)
  from quiet_trans[OF this quiet_notify_False] Some show ?thesis
    by (simp add: startRejected_def)
qed

lemma quiet_recconectingCallback: "quiet s (recconectingCallback s)"
  by (simp add: recconectingCallback_def newSubject_def emit_def quiet_def)

lemma quiet_step:
  assumes "reconnectingObservable s \<noteq> None" and "\<not> connected s"
      and "e \<noteq> TransportReconnected" and "e \<noteq> StateChanged StConnected"
  shows "quiet s (step e s)"
proof (cases e)
  case (StateChanged st)
  with assms show ?thesis
    by (auto simp: quiet_def connected_def hubInvokes_def split: option.splits)
qed (use assms in \<open>simp_all add: quiet_connect quiet_disconnect quiet_invoke_gated quiet_register
      quiet_unregister quiet_startResolved quiet_startRejected quiet_stopResolved
      quiet_stopRejected quiet_invokeResolved quiet_invokeRejected quiet_delayElapsed
      quiet_disconnectedCallback quiet_recconectingCallback quiet_hubMessageReceived\<close>)

section \<open>Dispatch of inbound events\<close>

text \<open>As long as no handler of the list unregisters its instance and none throws a
  symbol, a dispatch applies every listener of the list, in order, to the arguments it
  was given, and returns normally.\<close>

lemma listeners_called_console [simp]:
  "listeners h e (s\<lparr>called := c\<rparr>) = listeners h e s"
  "listeners h e (s\<lparr>console := k\<rparr>) = listeners h e s"
  by (simp_all add: listeners_def)

lemma dispatchLive_settled_list:
  assumes "listeners h (eventName sub) s = Some evs"
      and "\<And>l. l \<in> set evs \<Longrightarrow> \<not> fst (callback l args)"
      and "\<And>l e. l \<in> set evs \<Longrightarrow> snd (callback l args) = Some e \<Longrightarrow> \<not> isSymbol e"
      and "length evs \<le> i + n"
  shows "fst (dispatchLive n i h sub args s) = None \<and>
         called (snd (dispatchLive n i h sub args s)) =
           called s @ map (\<lambda>l. (oid (thisObj l), args, snd (callback l args))) (drop i evs) \<and>
         listeners h (eventName sub) (snd (dispatchLive n i h sub args s)) = Some evs"
  using assms(1,4)
proof (induction n arbitrary: i s)
  case 0
  then show ?case by simp
next
  case (Suc n)
  show ?case
  proof (cases "length evs \<le> i")
    case True
    with Suc.prems show ?thesis by simp
  next
    case False
    then have i: "i < length evs" by simp
    then have m: "evs ! i \<in> set evs" by simp
    let ?l = "evs ! i"
    let ?s1 = "s\<lparr>called := called s @ [(oid (thisObj ?l), args, snd (callback ?l args))]\<rparr>"
    have d: "drop i evs = ?l # drop (Suc i) evs" using i by (simp add: Cons_nth_drop_Suc)
    from assms(2)[OF m] have nu: "\<not> fst (callback ?l args)" .
    show ?thesis
    proof (cases "snd (callback ?l args)")
      case None
      have l1: "listeners h (eventName sub) ?s1 = Some evs" using Suc.prems(1) by simp
      from Suc.prems(2) have "length evs \<le> Suc i + n" by simp
      from Suc.IH[OF l1 this] Suc.prems(1) False nu None d show ?thesis
        by (simp add: Let_def)
    next
      case (Some err)
      from assms(3)[OF m Some] have ns: "\<not> isSymbol err" .
      let ?s2 = "?s1\<lparr>console := console ?s1 @ [Error h (eventName sub) err]\<rparr>"
      have l2: "listeners h (eventName sub) ?s2 = Some evs" using Suc.prems(1) by simp
      from Suc.prems(2) have "length evs \<le> Suc i + n" by simp
      from Suc.IH[OF l2 this] Suc.prems(1) False nu Some ns d show ?thesis
        by (simp add: Let_def)
    qed
  qed
qed

lemma hubMessageReceived_settled_list:
  assumes "listeners h (eventName sub) s = Some evs"
      and "\<And>l. l \<in> set evs \<Longrightarrow> \<not> fst (callback l args)"
      and "\<And>l e. l \<in> set evs \<Longrightarrow> snd (callback l args) = Some e \<Longrightarrow> \<not> isSymbol e"
  shows "fst (hubMessageReceived h sub args s) = None"
    and "called (snd (hubMessageReceived h sub args s)) =
           called s @ map (\<lambda>l. (oid (thisObj l), args, snd (callback l args))) evs"
proof -
  from assms(1) obtain proxies w where p: "hubProxies s = Some proxies" "proxies h = Some w"
      "events w (eventName sub) = Some evs"
    by (auto simp: listeners_def split: option.splits)
  have "length evs \<le> 0 + length evs" by simp
  note d = dispatchLive_settled_list[of h sub s evs args 0 "length evs", OF assms this]
  from d p show "fst (hubMessageReceived h sub args s) = None"
    by (simp add: hubMessageReceived_def)
  from d p show "called (snd (hubMessageReceived h sub args s)) =
           called s @ map (\<lambda>l. (oid (thisObj l), args, snd (callback l args))) evs"
    by (simp add: hubMessageReceived_def)
qed

text \<open>
  Claim C8 on the code. Services A and B listen on \<open>chatHub.messageReceived\<close>, A
  first, and A's handler throws: both handlers are applied to \<open>("alice", "hi")\<close> and the
  dispatch returns normally. With service C in the place of A, whose handler calls
  \<open>this.hubWrapper.unregister()\<close> and then throws: \<open>unregister\<close> splices C out of the
  array that the \<open>for ... of\<close> loop of \<open>hubMessageReceived\<close> is walking, B moves to index
  0, and the loop, going on at index 1, ends; the error is logged, and B, still
  registered, is not called for this message. With service D in the place of A, whose
  handler throws a symbol: the template string of the \<open>catch\<close> block throws a TypeError,
  which leaves \<open>hubMessageReceived\<close> towards the connection that called it; nothing is
  logged and B is not called.
\<close>

theorem unregistering_listener_hides_the_next:
  "called (snd (hubMessageReceived ''chatHub'' messageReceived [JStr ''alice'', JStr ''hi'']
                  (listenersWith serviceA))) =
     [(1, [JStr ''alice'', JStr ''hi''], Some (JStr ''boom'')),
      (2, [JStr ''alice'', JStr ''hi''], None)] \<and>
   fst (hubMessageReceived ''chatHub'' messageReceived [JStr ''alice'', JStr ''hi'']
          (listenersWith serviceA)) = None \<and>
   map_option (map (\<lambda>l. oid (thisObj l)))
     (listeners ''chatHub'' ''messageReceived'' (listenersWith serviceC)) = Some [3, 2] \<and>
   called (snd (hubMessageReceived ''chatHub'' messageReceived [JStr ''alice'', JStr ''hi'']
                  (listenersWith serviceC))) =
     [(3, [JStr ''alice'', JStr ''hi''], Some (JStr ''boom''))] \<and>
   console (snd (hubMessageReceived ''chatHub'' messageReceived [JStr ''alice'', JStr ''hi'']
                   (listenersWith serviceC))) =
     [Error ''chatHub'' ''messageReceived'' (JStr ''boom'')] \<and>
   map_option (map (\<lambda>l. oid (thisObj l)))
     (listeners ''chatHub'' ''messageReceived''
        (snd (hubMessageReceived ''chatHub'' messageReceived [JStr ''alice'', JStr ''hi'']
                (listenersWith serviceC)))) = Some [2] \<and>
   fst (hubMessageReceived ''chatHub'' messageReceived [JStr ''alice'', JStr ''hi'']
          (listenersWith serviceD)) = Some TypeError \<and>
   called (snd (hubMessageReceived ''chatHub'' messageReceived [JStr ''alice'', JStr ''hi'']
                  (listenersWith serviceD))) =
     [(4, [JStr ''alice'', JStr ''hi''], Some (JSymbol ''boom''))] \<and>
   console (snd (hubMessageReceived ''chatHub'' messageReceived [JStr ''alice'', JStr ''hi'']
                   (listenersWith serviceD))) = []"
  by code_simp

section \<open>Unregistering an instance\<close>

text \<open>For an instance whose hub has a proxy holding a list for each declared event,
  \<open>unregister\<close> returns normally and keeps, on each declared event, exactly the
  listeners of other owners, in order; every other list is as it was.\<close>

lemma spliceOwned_filter:
  "k \<le> length evs \<Longrightarrow>
     spliceOwned k inst evs = filter (notOwnedBy inst) (take k evs) @ drop k evs"
proof (induction k arbitrary: evs)
  case 0
  then show ?case by simp
next
  case (Suc k)
  then have k: "k < length evs" by simp
  show ?case
  proof (cases "oid (thisObj (evs ! k)) \<noteq> oid inst")
    case True
    with Suc k show ?thesis
      by (simp add: take_Suc_conv_app_nth notOwnedBy_def Cons_nth_drop_Suc)
  next
    case False
    let ?evs' = "take k evs @ drop (Suc k) evs"
    from k have "k \<le> length ?evs'" by simp
    from Suc.IH[OF this] k False show ?thesis
      by (simp add: take_Suc_conv_app_nth notOwnedBy_def min_def)
  qed
qed

lemma unregisterAll_declared:
  "(\<And>sub. sub \<in> set subs \<Longrightarrow> ev (eventName sub) \<noteq> None) \<Longrightarrow>
     fst (unregisterAll inst subs ev) = None \<and>
     snd (unregisterAll inst subs ev) e =
       (if e \<in> eventName ` set subs then map_option (filter (notOwnedBy inst)) (ev e) else ev e)"
proof (induction subs arbitrary: ev)
  case Nil
  then show ?case by simp
next
  case (Cons sub subs)
  from Cons.prems[of sub] obtain ls where ls: "ev (eventName sub) = Some ls" by auto
  define ev' where "ev' = ev(eventName sub \<mapsto> filter (notOwnedBy inst) ls)"
  have "\<And>sub'. sub' \<in> set subs \<Longrightarrow> ev' (eventName sub') \<noteq> None"
    using Cons.prems by (simp add: ev'_def)
  from Cons.IH[of ev', OF this]
  have ih: "fst (unregisterAll inst subs ev') = None"
    "snd (unregisterAll inst subs ev') e =
       (if e \<in> eventName ` set subs then map_option (filter (notOwnedBy inst)) (ev' e)
        else ev' e)"
    by simp_all
  have u: "unregisterAll inst (sub # subs) ev = unregisterAll inst subs ev'"
    using ls by (simp add: spliceOwned_filter ev'_def)
  have f: "filter (notOwnedBy inst) (filter (notOwnedBy inst) ls) = filter (notOwnedBy inst) ls"
    by simp
  show ?case
  proof (cases "e = eventName sub")
    case True
    with ih ls f show ?thesis unfolding u by (simp add: ev'_def)
  next
    case False
    with ih show ?thesis unfolding u by (simp add: ev'_def)
  qed
qed

lemma unregister_bound_instance:
  assumes "metadata inst = Some props" and "proxyOf (hubName props) s = Some w"
      and "\<And>sub. sub \<in> set (subscriptions props) \<Longrightarrow> events w (eventName sub) \<noteq> None"
  shows "fst (unregister inst s) = None"
    and "listeners h e (snd (unregister inst s)) =
            (if h = hubName props \<and> e \<in> eventName ` set (subscriptions props)
             then map_option (filter (notOwnedBy inst)) (listeners h e s)
             else listeners h e s)"
proof -
  from assms(2) obtain proxies where p: "hubProxies s = Some proxies"
      "proxies (hubName props) = Some w"
    by (auto simp: proxyOf_def split: option.splits)
  note u = unregisterAll_declared[of "subscriptions props" "events w" inst, OF assms(3)]
  from u assms(1) p show "fst (unregister inst s) = None"
    by (simp add: unregister_def split_beta)
  from u[of e] assms(1) p show "listeners h e (snd (unregister inst s)) =
            (if h = hubName props \<and> e \<in> eventName ` set (subscriptions props)
             then map_option (filter (notOwnedBy inst)) (listeners h e s)
             else listeners h e s)"
    by (simp add: unregister_def split_beta listeners_def)
qed

text \<open>
  Claim C9 on the code. Service B registers before \<open>connect\<close>: \<open>register\<close> queues the
  instance in \<open>deferredRegistrations\<close> and returns its wrapper. \<open>unregister(B)\<close> then looks
  the hub up in \<open>this.hubProxies\<close>, which is still undefined, and throws a TypeError; B
  stays queued. The \<open>connect\<close> that follows registers B on \<open>chatHub.messageReceived\<close>, and
  an inbound message is dispatched to B's handler.
\<close>

theorem unregister_before_connect_throws:
  "map oid (deferredRegistrations queuedService) = [2] \<and>
   fst (unregister serviceB queuedService) = Some TypeError \<and>
   map oid (deferredRegistrations (snd (unregister serviceB queuedService))) = [2] \<and>
   map_option (map (\<lambda>l. oid (thisObj l)))
     (listeners ''chatHub'' ''messageReceived''
        (run [Unregister serviceB, Connect defaultOptions 0] queuedService)) = Some [2] \<and>
   called (run [Unregister serviceB, Connect defaultOptions 0,
                HubMessage ''chatHub'' messageReceived [JStr ''alice'', JStr ''hi'']]
             queuedService) = [(2, [JStr ''alice'', JStr ''hi''], None)]"
  by code_simp

section \<open>Invoking while a reconnect is in progress\<close>

text \<open>With a Subject held, \<open>invoke\<close> on a hub that has a proxy only adds its \<open>flatMap\<close>
  to the observers of the Subject.\<close>

lemma invoke_gated:
  assumes "reconnectingObservable s = Some g"
      and "map_option hubProxy (proxyOf name s) = Some hp"
  shows "invoke name method args c s =
           (None, subscribeSubject g (InvokeFlatMap hp method args c) s)"
  using assms by (auto simp: invoke_def proxyOf_def split: option.splits)

text \<open>
  Claim C1 on the code. Reconnect attempt 1 is under way and Subject 0 is held when
  caller 1 invokes \<open>sendMessage("alice", "one")\<close>: nothing is called on the connection
  and the caller has received nothing.
  \<^item> The Subject is resolved with \<open>false\<close> (the connection fires its reconnected hook
    while its state is not connected): still nothing is called on the connection, and
    the caller's observable fails with a TypeError. \<open>Observable.throw\<close> is not a member
    of the \<open>Observable\<close> that the file imports from \<open>rxjs\<close> (the other branch of \<open>invoke\<close>
    uses \<open>throwError\<close>, the function of that library), so the call of it throws inside
    the \<open>flatMap\<close> and the error \<open>"SignalR disconnected"\<close> is never built.
  \<^item> Attempt 1 succeeds and the Subject is resolved with \<open>true\<close>: the call is made on the
    connection with the same method and arguments and the caller receives the value
    its promise resolves with; but the observable does not complete, since nothing
    completes the Subject it is built on, so a \<open>toPromise()\<close> of it never settles. The
    observable of an \<open>invoke\<close> made while no Subject is held completes after its value.
\<close>

theorem gated_invoke_fails_with_TypeError:
  "hubInvokes (step (Invoke ''chatHub'' ''sendMessage'' [JStr ''alice'', JStr ''one''] 1)
                 droppedRetrying) = [] \<and>
   outcomes (step (Invoke ''chatHub'' ''sendMessage'' [JStr ''alice'', JStr ''one''] 1)
               droppedRetrying) = [(0, Next (JBool True))] \<and>
   outcomes (run [Invoke ''chatHub'' ''sendMessage'' [JStr ''alice'', JStr ''one''] 1,
                  TransportReconnected] droppedRetrying) =
     [(0, Next (JBool True)), (1, Thrown TypeError)] \<and>
   hubInvokes (run [Invoke ''chatHub'' ''sendMessage'' [JStr ''alice'', JStr ''one''] 1,
                    TransportReconnected] droppedRetrying) = [] \<and>
   hubInvokes (run [Invoke ''chatHub'' ''sendMessage'' [JStr ''alice'', JStr ''one''] 1,
                    StateChanged StConnected, StartResolved 3,
                    InvokeResolved 4 (JStr ''ok'')] droppedRetrying) =
     [HubInvoke ''chatHub'' ''sendMessage'' [JStr ''alice'', JStr ''one'']] \<and>
   outcomes (run [Invoke ''chatHub'' ''sendMessage'' [JStr ''alice'', JStr ''one''] 1,
                  StateChanged StConnected, StartResolved 3,
                  InvokeResolved 4 (JStr ''ok'')] droppedRetrying) =
     [(0, Next (JBool True)), (1, Next (JStr ''ok''))] \<and>
   completed (run [Invoke ''chatHub'' ''sendMessage'' [JStr ''alice'', JStr ''one''] 1,
                   StateChanged StConnected, StartResolved 3,
                   InvokeResolved 4 (JStr ''ok'')] droppedRetrying) = [0] \<and>
   completed (run [Invoke ''chatHub'' ''sendMessage'' [JStr ''alice'', JStr ''one''] 1,
                   InvokeResolved 3 (JStr ''ok'')] (connectedService reconnectOptions)) = [0, 1]"
  by code_simp

section \<open>Connecting while a reconnect is in progress\<close>

text \<open>With a Subject held, \<open>connect\<close> calls nothing on the connection, creates no
  promise and subscribes its caller to the Subject.\<close>

lemma connect_joins_gate:
  assumes "reconnectingObservable s = Some g"
  shows "fst (connect opts c s) = None"
    and "transportLog (snd (connect opts c s)) = transportLog s"
    and "startPromises (snd (connect opts c s)) = startPromises s"
    and "reconnectingObservable (snd (connect opts c s)) = Some g"
    and "subjects (snd (connect opts c s)) g = subjects s g @ [AsObservable (Caller c)]"
  using assms by (simp_all add: connect_def private_connect_def subscribeSubject_def)

text \<open>
  Claim C5 on the code. Reconnect attempt 1 is under way (Subject 0, \<open>start\<close> number 3)
  when caller 5 calls \<open>connect\<close>: nothing is called on the connection and the caller
  observes Subject 0.
  \<^item> Attempt 1 succeeds: the caller receives \<open>true\<close>, on an observable that does not
    complete.
  \<^item> Attempt 1 fails and attempt 2 succeeds: the service is connected and holds no
    Subject, and caller 5 has received nothing; it still observes Subject 0, which
    \<open>tryReconnect\<close> has replaced by Subject 1.
  \<^item> The caller passes no \<open>attemptReconnects\<close>: \<open>connect\<close> has overwritten
    \<open>this.options\<close> before \<open>_connect\<close> looks at the Subject. When attempt 1 has failed and
    its timer has elapsed, \<open>tryReconnect\<close> calls \<open>_connect(false)\<close>, which hands back the
    Subject just created instead of calling \<open>start\<close>: no call is added to those on the
    connection, the subscriber of the loop observes its own Subject 1, and no \<open>start\<close>
    promise and no timer is pending. With the options left alone the same two events
    call \<open>start\<close> again.
\<close>

theorem connect_during_reconnect_strands_caller:
  "transportLog (step (Connect reconnectOptions 5) droppedRetrying) = transportLog droppedRetrying \<and>
   subjects (step (Connect reconnectOptions 5) droppedRetrying) 0 = [AsObservable (Caller 5)] \<and>
   outcomes (run [Connect reconnectOptions 5, StateChanged StConnected, StartResolved 3]
               droppedRetrying) = [(0, Next (JBool True)), (5, Next (JBool True))] \<and>
   completed (run [Connect reconnectOptions 5, StateChanged StConnected, StartResolved 3]
               droppedRetrying) = [0] \<and>
   connected (run [Connect reconnectOptions 5, StartRejected 3 JNull, DelayElapsed,
                   StateChanged StConnected, StartResolved 4] droppedRetrying) \<and>
   reconnectingObservable (run [Connect reconnectOptions 5, StartRejected 3 JNull, DelayElapsed,
                   StateChanged StConnected, StartResolved 4] droppedRetrying) = None \<and>
   outcomes (run [Connect reconnectOptions 5, StartRejected 3 JNull, DelayElapsed,
                  StateChanged StConnected, StartResolved 4] droppedRetrying) =
     [(0, Next (JBool True))] \<and>
   subjects (run [Connect reconnectOptions 5, StartRejected 3 JNull, DelayElapsed,
                  StateChanged StConnected, StartResolved 4] droppedRetrying) 0 =
     [AsObservable (Caller 5)] \<and>
   transportLog (run [Connect defaultOptions 5, StartRejected 3 JNull, DelayElapsed]
                   droppedRetrying) = transportLog droppedRetrying \<and>
   tryingReconnect (run [Connect defaultOptions 5, StartRejected 3 JNull, DelayElapsed]
                   droppedRetrying) \<and>
   reconnectingObservable (run [Connect defaultOptions 5, StartRejected 3 JNull, DelayElapsed]
                   droppedRetrying) = Some 1 \<and>
   subjects (run [Connect defaultOptions 5, StartRejected 3 JNull, DelayElapsed]
               droppedRetrying) 1 = [AsObservable ReconnectLoop] \<and>
   timers (run [Connect defaultOptions 5, StartRejected 3 JNull, DelayElapsed]
             droppedRetrying) = 0 \<and>
   startPromises (run [Connect defaultOptions 5, StartRejected 3 JNull, DelayElapsed]
             droppedRetrying) 3 = None \<and>
   outcomes (run [Connect defaultOptions 5, StartRejected 3 JNull, DelayElapsed]
               droppedRetrying) = [(0, Next (JBool True))] \<and>
   transportLog (run [StartRejected 3 JNull, DelayElapsed] droppedRetrying) =
     transportLog droppedRetrying @ [Start]"
  by code_simp

section \<open>A connect whose start fails\<close>




section \<open>The errorConnecting flag\<close>




section \<open>Calls during the retry loop\<close>

lemma retrying_step:
  assumes "tryingReconnect s" and "reconnectingObservable s \<noteq> None"
      and "e \<noteq> TransportReconnected"
  shows "(tryingReconnect (step e s) \<and> reconnectingObservable (step e s) \<noteq> None) \<or>
         (\<exists>p. e = StartResolved p \<and> startPromises s p = Some ReconnectLoop \<and> connected s)"
proof (cases e)
  case (Connect opts c)
  then show ?thesis using assms flags_connect[of opts c s] by (simp add: flags_def)
next
  case (Disconnect c)
  then show ?thesis using assms flags_disconnect[of c s] by (simp add: flags_def)
next
  case (Invoke n m a c)
  then show ?thesis using assms flags_invoke[of n m a c s] by (simp add: flags_def)
next
  case (Register i)
  then show ?thesis using assms flags_register[of i s] by (simp add: flags_def)
next
  case (Unregister i)
  then show ?thesis using assms flags_unregister[of i s] by (simp add: flags_def)
next
  case (StartResolved p)
  show ?thesis
  proof (cases "startPromises s p")
    case None
    with StartResolved assms show ?thesis by (simp add: startResolved_def)
  next
    case (Some obs)
    let ?s1 = "s\<lparr>startPromises := (startPromises s)(p := None)\<rparr>"
    have c: "connected ?s1 = connected s" by (simp add: connected_def)
    show ?thesis
    proof (cases obs)
      case (Caller c)
      with Some StartResolved assms flags_connectedCallback[of ?s1] show ?thesis
        by (simp add: startResolved_def Let_def flags_def deliver_def complete_def)
    next
      case ReconnectLoop
      show ?thesis
      proof (cases "connected s")
        case True
        with Some ReconnectLoop StartResolved show ?thesis by simp
      next
        case False
        with Some ReconnectLoop StartResolved assms c flags_connectedCallback[of ?s1]
        show ?thesis
          by (simp add: startResolved_def Let_def flags_def reconnectSubscriber_def)
      qed
    qed
  qed
next
  case (StartRejected p err)
  show ?thesis
  proof (cases "startPromises s p")
    case None
    with StartRejected assms show ?thesis by (simp add: startRejected_def)
  next
    case (Some obs)
    let ?s1 = "s\<lparr>startPromises := (startPromises s)(p := None)\<rparr>"
    from Some StartRejected assms flags_connectionErrorCallback[of ?s1] show ?thesis
      by (cases obs)
         (simp_all add: startRejected_def flags_def deliver_def complete_def
                        reconnectSubscriber_def)
  qed
next
  case (StopResolved p)
  then show ?thesis using assms flags_stopResolved[of p s] by (simp add: flags_def)
next
  case (StopRejected p err)
  then show ?thesis using assms flags_stopRejected[of p err s] by (simp add: flags_def)
next
  case (InvokeResolved p v)
  then show ?thesis using assms flags_invokeResolved[of p v s] by (simp add: flags_def)
next
  case (InvokeRejected p err)
  then show ?thesis using assms flags_invokeRejected[of p err s] by (simp add: flags_def)
next
  case DelayElapsed
  then show ?thesis using assms flags_tryReconnect[of "s\<lparr>timers := timers s - 1\<rparr>"]
    by (auto simp: delayElapsed_def flags_def)
next
  case (StateChanged st)
  then show ?thesis using assms by simp
next
  case TransportDisconnected
  then show ?thesis using assms flags_disconnectedCallback[of s]
    by (simp add: flags_def split: option.splits if_splits)
next
  case TransportReconnecting
  then show ?thesis using assms flags_recconectingCallback[of s] by (auto simp: flags_def)
next
  case TransportReconnected
  then show ?thesis using assms by simp
next
  case (HubMessage h sub args)
  then show ?thesis using assms flags_hubMessageReceived[of h sub args s] by (auto simp: flags_def)
qed

text \<open>
  Claim C2, as the code has it. When \<open>attemptReconnects\<close> is set and no retry is running,
  the disconnected callback starts the retry loop with a Subject held. From a state in
  the retry loop with a Subject held and the connection not connected, whatever events
  follow (calls of \<open>invoke\<close>, \<open>connect\<close>, \<open>register\<close>, settlements of earlier calls,
  failed or unconnected starts, timers), as long as the connection neither reports state
  connected nor fires its own reconnected hook, the service stays in the loop with a
  Subject held and no hub method call at all is added to the calls on the connection.
  Calls are held back by the Subject and by nothing else: whenever no Subject is held,
  \<open>invoke\<close> on a hub that has a proxy returns normally and has called
  \<open>hubProxy.invoke(method, ...args)\<close> on the connection, whatever the state of the
  connection.
\<close>
theorem retry_loop_keeps_calls_off_the_wire:
  "(reconnectsWanted s \<longrightarrow> \<not> tryingReconnect s \<longrightarrow>
      tryingReconnect (snd (disconnectedCallback s)) \<and>
      reconnectingObservable (snd (disconnectedCallback s)) \<noteq> None) \<and>
   (tryingReconnect s \<longrightarrow> reconnectingObservable s \<noteq> None \<longrightarrow> \<not> connected s \<longrightarrow>
    TransportReconnected \<notin> set evs \<longrightarrow> StateChanged StConnected \<notin> set evs \<longrightarrow>
      tryingReconnect (run evs s) \<and> reconnectingObservable (run evs s) \<noteq> None \<and>
      \<not> connected (run evs s) \<and> hubInvokes (run evs s) = hubInvokes s) \<and>
   (reconnectingObservable s = None \<longrightarrow> proxyOf name s = Some w \<longrightarrow>
      fst (invoke name meth args c s) = None \<and>
      transportLog (snd (invoke name meth args c s)) =
        transportLog s @ [HubInvoke (hubProxy w) meth args])"
proof (intro conjI impI)
  assume w: "reconnectsWanted s" and t: "\<not> tryingReconnect s"
  with flags_disconnectedCallback[of s]
  show "tryingReconnect (snd (disconnectedCallback s))"
       "reconnectingObservable (snd (disconnectedCallback s)) \<noteq> None"
    by (auto simp: reconnectsWanted_def flags_def split: option.splits)
next
  assume "tryingReconnect s" "reconnectingObservable s \<noteq> None" "\<not> connected s"
         "TransportReconnected \<notin> set evs" "StateChanged StConnected \<notin> set evs"
  then have "tryingReconnect (run evs s) \<and> reconnectingObservable (run evs s) \<noteq> None \<and>
      \<not> connected (run evs s) \<and> hubInvokes (run evs s) = hubInvokes s"
  proof (induction evs arbitrary: s)
    case Nil
    then show ?case by simp
  next
    case (Cons e evs)
    from Cons.prems have e: "e \<noteq> TransportReconnected" "e \<noteq> StateChanged StConnected" by auto
    from retrying_step[OF Cons.prems(1,2) e(1)] Cons.prems(3)
    have r: "tryingReconnect (step e s)" "reconnectingObservable (step e s) \<noteq> None" by auto
    from quiet_step[OF Cons.prems(2,3) e]
    have q: "\<not> connected (step e s)" "hubInvokes (step e s) = hubInvokes s"
      using Cons.prems(3) by (auto simp: quiet_def)
    from Cons.IH[OF r q(1)] Cons.prems(4,5) q(2) show ?case by simp
  qed
  then show "tryingReconnect (run evs s)" "reconnectingObservable (run evs s) \<noteq> None"
            "\<not> connected (run evs s)" "hubInvokes (run evs s) = hubInvokes s"
    by simp_all
next
  assume g: "reconnectingObservable s = None" and p: "proxyOf name s = Some w"
  from p obtain proxies where h: "hubProxies s = Some proxies" "proxies name = Some w"
    by (auto simp: proxyOf_def split: option.splits)
  from g h show "fst (invoke name meth args c s) = None"
    by (simp add: invoke_def)
  from g h show "transportLog (snd (invoke name meth args c s)) =
      transportLog s @ [HubInvoke (hubProxy w) meth args]"
    by (simp add: invoke_def hubProxy_invoke_def)
qed

text \<open>The drop with \<open>attemptReconnects\<close> set, followed by two invokes around a failed
  attempt and its timer: no hub call has reached the connection. On the connected
  service, which holds no Subject, \<open>invoke\<close> calls the connection.\<close>
theorem retry_loop_keeps_calls_off_the_wire_witness:
  "tryingReconnect (snd (disconnectedCallback
      (step (StateChanged StDisconnected) (connectedService reconnectOptions)))) \<and>
   reconnectingObservable droppedRetrying = Some 0 \<and>
   hubInvokes (run [Invoke ''chatHub'' ''sendMessage'' [JStr ''alice'', JStr ''one''] 1,
                    StartRejected 3 JNull, DelayElapsed,
                    Invoke ''chatHub'' ''sendMessage'' [JStr ''alice'', JStr ''two''] 2]
                 droppedRetrying) = [] \<and>
   reconnectingObservable (connectedService reconnectOptions) = None \<and>
   transportLog (snd (invoke ''chatHub'' ''sendMessage'' [JStr ''alice'', JStr ''hi''] 1
                        (connectedService reconnectOptions))) =
     transportLog (connectedService reconnectOptions) @
       [HubInvoke ''chatHub'' ''sendMessage'' [JStr ''alice'', JStr ''hi'']]"
proof -
  let ?s = "step (StateChanged StDisconnected) (connectedService reconnectOptions)"
  let ?evs = "[Invoke ''chatHub'' ''sendMessage'' [JStr ''alice'', JStr ''one''] 1,
               StartRejected 3 JNull, DelayElapsed,
               Invoke ''chatHub'' ''sendMessage'' [JStr ''alice'', JStr ''two''] 2]"
  have a: "reconnectsWanted ?s" "\<not> tryingReconnect ?s" by code_simp+
  have g: "reconnectingObservable droppedRetrying = Some 0" by code_simp
  have c: "\<not> connected droppedRetrying" by code_simp
  have e: "TransportReconnected \<notin> set ?evs" "StateChanged StConnected \<notin> set ?evs" by simp_all
  have h: "hubInvokes droppedRetrying = []" by code_simp
  have t: "tryingReconnect droppedRetrying" by code_simp
  have n: "reconnectingObservable (connectedService reconnectOptions) = None" by code_simp
  have p: "map_option hubProxy (proxyOf ''chatHub'' (connectedService reconnectOptions)) =
             Some ''chatHub''" by code_simp
  then obtain w where w: "proxyOf ''chatHub'' (connectedService reconnectOptions) = Some w"
      "hubProxy w = ''chatHub''" by auto
  from retry_loop_keeps_calls_off_the_wire[of ?s ?evs] a
  have "tryingReconnect (snd (disconnectedCallback ?s))" by simp
  moreover from retry_loop_keeps_calls_off_the_wire[of droppedRetrying ?evs] t g c e h
  have "hubInvokes (run ?evs droppedRetrying) = []" by simp
  moreover from retry_loop_keeps_calls_off_the_wire
    [of "connectedService reconnectOptions" "[]" "''chatHub''" w "''sendMessage''"
        "[JStr ''alice'', JStr ''hi'']" 1] n w
  have "transportLog (snd (invoke ''chatHub'' ''sendMessage'' [JStr ''alice'', JStr ''hi''] 1
                        (connectedService reconnectOptions))) =
     transportLog (connectedService reconnectOptions) @
       [HubInvoke ''chatHub'' ''sendMessage'' [JStr ''alice'', JStr ''hi'']]" by simp
  ultimately show ?thesis using g n by simp
qed

text \<open>
  Claim C2 as stated fails when \<open>attemptReconnects\<close> is not set (the default): after the
  connection has dropped, the disconnect has been announced and nothing has
  reconnected, \<open>invoke\<close> calls \<open>hubProxy.invoke\<close> on the connection at once.
\<close>
theorem invoke_reaches_wire_without_gate:
  "knownDown droppedNoRetry \<and> \<not> connected droppedNoRetry \<and>
   fst (invoke ''chatHub'' ''sendMessage'' [JStr ''alice'', JStr ''hi''] 1 droppedNoRetry) = None \<and>
   transportLog (snd (invoke ''chatHub'' ''sendMessage'' [JStr ''alice'', JStr ''hi''] 1
                        droppedNoRetry)) =
     transportLog droppedNoRetry @ [HubInvoke ''chatHub'' ''sendMessage'' [JStr ''alice'', JStr ''hi'']]"
  by code_simp

section \<open>Repeated reconnect attempts\<close>

lemma tryReconnect_replaces_gate:
  "reconnectingObservable (snd (tryReconnect s)) = Some (subjectCount s)"
  using flags_tryReconnect[of s] by (simp add: flags_def)

text \<open>
  Claim C3 on the code, in the run of four attempts. Each \<open>tryReconnect\<close> puts a new
  Subject into \<open>reconnectingObservable\<close>, and \<open>reconnectedCallback\<close> resolves only the
  Subject held at the end. After attempt 4 has succeeded the only hub call sent is that
  of caller 4, who invoked during attempt 4; the calls of callers 1, 2 and 3 still sit
  on Subjects 0, 1 and 2, which nothing refers to any more, no promise and no timer is
  pending for them, and they have received neither a value nor an error.
\<close>
theorem calls_of_failed_attempts_stranded:
  "transportLog (run fourAttempts droppedRetrying) =
     [CreateHubProxy ''chatHub'', On ''chatHub'' ''messageReceived'', Start,
      Start, Start, Start, Start,
      HubInvoke ''chatHub'' ''sendMessage'' [JStr ''alice'', JStr ''four'']] \<and>
   outcomes (run fourAttempts droppedRetrying) = [(0, Next (JBool True))] \<and>
   connected (run fourAttempts droppedRetrying) \<and>
   reconnectingObservable (run fourAttempts droppedRetrying) = None \<and>
   \<not> tryingReconnect (run fourAttempts droppedRetrying) \<and>
   timers (run fourAttempts droppedRetrying) = 0 \<and>
   subjects (run fourAttempts droppedRetrying) 0 =
     [InvokeFlatMap ''chatHub'' ''sendMessage'' [JStr ''alice'', JStr ''one''] 1] \<and>
   subjects (run fourAttempts droppedRetrying) 1 =
     [InvokeFlatMap ''chatHub'' ''sendMessage'' [JStr ''alice'', JStr ''two''] 2] \<and>
   subjects (run fourAttempts droppedRetrying) 2 =
     [InvokeFlatMap ''chatHub'' ''sendMessage'' [JStr ''alice'', JStr ''three''] 3] \<and>
   map (invokePromises (run fourAttempts droppedRetrying)) [0, 1, 2, 3, 4, 5, 6, 7] =
     [None, None, None, None, None, None, None, Some (Direct 4)] \<and>
   outcomes (run (fourAttempts @ [InvokeResolved 7 (JStr ''ok'')]) droppedRetrying) =
     [(0, Next (JBool True)), (4, Next (JStr ''ok''))]"
  by code_simp

text \<open>
  Claim C6 on the code, in the run of four attempts. The successful attempt emits
  \<open>connected\<close> twice, once from the \<open>tap(connectedCallback)\<close> of \<open>_connect\<close> and once from
  \<open>reconnectedCallback\<close>, around one \<open>reconnected\<close>; each failed attempt has emitted
  \<open>disconnected\<close>. When the connection reconnects by itself and calls
  \<open>reconnectedCallback\<close>, one \<open>reconnected\<close> and one \<open>connected\<close> are emitted.
\<close>
theorem reconnect_emits_connected_twice:
  "emitted droppedRetrying = [connectedEmit True, disconnectedEmit False] \<and>
   emitted (run fourAttempts droppedRetrying) =
     [connectedEmit True, disconnectedEmit False,
      disconnectedEmit False, disconnectedEmit False, disconnectedEmit False,
      connectedEmit True, reconnectedEmit True, connectedEmit True] \<and>
   emitted (run [StateChanged StReconnecting, TransportReconnecting,
                 StateChanged StConnected, TransportReconnected]
              (connectedService reconnectOptions)) =
     [connectedEmit True, reconnectingEmit, reconnectedEmit True, connectedEmit True]"
  by code_simp

section \<open>The retry of a rejected call\<close>

lemma wrapped_arguments_differ: "[JArr args] \<noteq> args"
proof
  assume "[JArr args] = args"
  then have "size_list size [JArr args] = size_list size args" by simp
  then show False by simp
qed

lemma catchError_reinvokes_with_array:
  assumes "invokePromises s p = Some (CatchRetry c name method args)"
      and "reconnectingObservable s = Some g"
      and "map_option hubProxy (proxyOf name s) = Some hp"
  shows "subjects (invokeRejected p err s) g =
           subjects s g @ [InvokeFlatMap hp method [JArr args] c] \<and>
         transportLog (invokeRejected p err s) = transportLog s \<and>
         outcomes (invokeRejected p err s) = outcomes s"
proof -
  let ?s1 = "s\<lparr>invokePromises := (invokePromises s)(p := None)\<rparr>"
  have g: "reconnectingObservable ?s1 = Some g" using assms(2) by simp
  have h: "map_option hubProxy (proxyOf name ?s1) = Some hp"
    using assms(3) by (simp add: proxyOf_def)
  from invoke_gated[OF g h, of "method" "[JArr args]" c] assms(1,2)
  show ?thesis
    by (simp add: invokeRejected_def Let_def subscribeSubject_def)
qed

lemma catchError_surfaces_failure_without_gate:
  assumes "invokePromises s p = Some (CatchRetry c name method args)"
      and "reconnectingObservable s = None"
  shows "outcomes (invokeRejected p err s) = outcomes s @ [(c, Failed err)] \<and>
         transportLog (invokeRejected p err s) = transportLog s"
  using assms by (simp add: invokeRejected_def Let_def deliver_def)

text \<open>
  Claim C4 on the code. The call \<open>sendMessage("alice", "hi")\<close> is in flight when the
  connection drops; its promise is rejected while a Subject is held. The retry waits on
  the Subject with the argument list \<open>[["alice", "hi"]]\<close>, and once the reconnect has
  succeeded the connection is asked for \<open>sendMessage(["alice", "hi"])\<close>: one argument, the
  array, instead of the two original arguments.
\<close>
theorem retry_passes_argument_array:
  "transportLog (run lostMidCall (connectedService reconnectOptions)) =
     [CreateHubProxy ''chatHub'', On ''chatHub'' ''messageReceived'', Start,
      HubInvoke ''chatHub'' ''sendMessage'' [JStr ''alice'', JStr ''hi''],
      Start,
      HubInvoke ''chatHub'' ''sendMessage'' [JArr [JStr ''alice'', JStr ''hi'']]] \<and>
   outcomes (run (take 4 lostMidCall) (connectedService reconnectOptions)) =
     [(0, Next (JBool True))] \<and>
   subjects (run (take 4 lostMidCall) (connectedService reconnectOptions)) 0 =
     [InvokeFlatMap ''chatHub'' ''sendMessage'' [JArr [JStr ''alice'', JStr ''hi'']] 1]"
  by code_simp

end
